theory Spec2Isabelle
  imports Complex_Main "HOL-Library.Multiset" "HOL-Library.Log_Nat"
begin

section \<open>Documents, configuration and results\<close>

text \<open>
  An offer document of the \<open>offers\<close> collection, as \<open>seedData\<close> writes it. Only the
  fields that the distribution methods read are kept (\<open>_id\<close>, \<open>gameCategory\<close>,
  \<open>sellerId\<close>, \<open>rating\<close>, \<open>createdAt\<close>); title, price, description, stock and tags
  travel with the document unchanged and take part in no decision. A rating is the
  real number that its double stands for, \<open>createdAt\<close> is the date in milliseconds.
\<close>

record offer =
  offer_id :: string
  gameCategory :: string
  sellerId :: string
  rating :: real
  createdAt :: int

text \<open>The values of \<open>config.app\<close> in config.js that the methods use.\<close>

definition defaultPageSize :: int where
  "defaultPageSize = 10"

definition maxPageSize :: int where
  "maxPageSize = 100"

definition seedUpdateIntervalMinutes :: int where
  "seedUpdateIntervalMinutes = 1"

definition defaultMaxOffersPerSeller :: int where
  "defaultMaxOffersPerSeller = 2"

definition maxMaxOffersPerSeller :: int where
  "maxMaxOffersPerSeller = 10"

text \<open>
  What a method can throw. The first three are errors of the document store
  (\<open>$toInt\<close> on a string that is no 32-bit integer, a negative \<open>$skip\<close>, a
  \<open>$limit\<close> that is not positive), which the methods log and rethrow; the last is
  the \<open>Error\<close> of the currency conversion.
\<close>

datatype error =
  ConversionFailure string
  | SkipNegative int
  | LimitNotPositive int
  | RateNotFound string

text \<open>
  The \<open>pagination\<close> object of a result (fields \<open>page\<close>, \<open>limit\<close>, \<open>total\<close>,
  \<open>totalPages\<close>, \<open>hasNextPage\<close>, \<open>hasPrevPage\<close>) and the result itself
  (\<open>offers\<close>, \<open>pagination\<close>, \<open>seed\<close> or \<open>maxPerSeller\<close> where the method
  returns one, \<open>method\<close>).
\<close>

record pagination =
  p_page :: int
  p_limit :: int
  p_total :: int
  p_totalPages :: int
  p_hasNextPage :: bool
  p_hasPrevPage :: bool

record 'd result =
  r_offers :: "'d list"
  r_pagination :: pagination
  r_seed :: "int option"
  r_maxPerSeller :: "int option"
  r_method :: string

section \<open>JavaScript and document-store primitives\<close>

text \<open>
  \<open>v || d\<close> on an optional integer argument: \<open>null\<close> and \<open>0\<close> are falsy and give
  the default, every other integer is kept.
\<close>

definition js_or :: "int option \<Rightarrow> int \<Rightarrow> int" where
  "js_or v d = (case v of None \<Rightarrow> d | Some n \<Rightarrow> if n = 0 then d else n)"

text \<open>
  \<open>Array.prototype.slice(start, end)\<close>: a negative index counts from the end of the
  array, both indices are clamped to the array, and an empty range gives the empty array.
\<close>

definition js_slice :: "'a list \<Rightarrow> int \<Rightarrow> int \<Rightarrow> 'a list" where
  "js_slice xs start end =
     (let len = int (length xs);
          k = (if start < 0 then max (len + start) 0 else min start len);
          final = (if end < 0 then max (len + end) 0 else min end len)
      in take (nat (final - k)) (drop (nat k) xs))"

text \<open>\<open>xs[i]\<close>: \<open>undefined\<close> (here \<open>None\<close>) outside the array.\<close>

definition js_index :: "'a list \<Rightarrow> nat \<Rightarrow> 'a option" where
  "js_index xs i = (if i < length xs then Some (xs ! i) else None)"

text \<open>\<open>Math.max(...ns)\<close>: \<open>-Infinity\<close> (here \<open>None\<close>) for no argument.\<close>

definition js_Math_max :: "nat list \<Rightarrow> nat option" where
  "js_Math_max ns = (case ns of [] \<Rightarrow> None | n # ms \<Rightarrow> Some (fold max ms n))"

text \<open>\<open>round < maxOffersPerSeller\<close>, where the bound may be \<open>-Infinity\<close>.\<close>

definition js_less :: "nat \<Rightarrow> nat option \<Rightarrow> bool" where
  "js_less i bound = (case bound of None \<Rightarrow> False | Some m \<Rightarrow> i < m)"

text \<open>\<open>Math.ceil(a / b)\<close> on integers, \<open>b\<close> not zero.\<close>

definition js_ceil_div :: "int \<Rightarrow> int \<Rightarrow> int" where
  "js_ceil_div a b = \<lceil>real_of_int a / real_of_int b\<rceil>"

text \<open>
  \<open>$strLenCP\<close> and \<open>$substr [s, start, -1]\<close> (the rest of the string from
  \<open>start\<close>; empty when \<open>start\<close> is beyond the end). Seller identifiers are ASCII,
  so code points and bytes agree.
\<close>

definition strLenCP :: "string \<Rightarrow> int" where
  "strLenCP s = int (length s)"

definition substr :: "string \<Rightarrow> nat \<Rightarrow> string" where
  "substr s start = drop start s"

text \<open>
  \<open>$toInt\<close> on a string: an optional sign and at least one decimal digit, nothing
  else, with a value in the 32-bit range; any other string makes the aggregation fail.
\<close>

definition is_digit :: "char \<Rightarrow> bool" where
  "is_digit c = (c \<in> set ''0123456789'')"

definition digit_value :: "char \<Rightarrow> nat" where
  "digit_value c = of_char c - 48"

definition parse_digits :: "string \<Rightarrow> nat option" where
  "parse_digits s =
     (if s \<noteq> [] \<and> list_all is_digit s
      then Some (foldl (\<lambda>a c. 10 * a + digit_value c) 0 s) else None)"

definition parse_signed :: "string \<Rightarrow> int option" where
  "parse_signed s =
     (case s of
        [] \<Rightarrow> None
      | c # cs \<Rightarrow>
          if c = CHR ''-'' then map_option (\<lambda>n. - int n) (parse_digits cs)
          else if c = CHR ''+'' then map_option int (parse_digits cs)
          else map_option int (parse_digits s))"

definition toInt :: "string \<Rightarrow> error + int" where
  "toInt s =
     (case parse_signed s of
        None \<Rightarrow> Inl (ConversionFailure s)
      | Some v \<Rightarrow>
          if - 2147483648 \<le> v \<and> v \<le> 2147483647 then Inr v
          else Inl (ConversionFailure s))"

text \<open>\<open>$mod\<close>: the remainder has the sign of the dividend.\<close>

definition mongo_mod :: "int \<Rightarrow> int \<Rightarrow> int" where
  "mongo_mod a b = sgn a * (\<bar>a\<bar> mod \<bar>b\<bar>)"

subsection \<open>Doubles\<close>

text \<open>
  A JavaScript number is an IEEE 754 double. \<open>rd x\<close> is the double nearest to the real
  number \<open>x\<close>, a tie going to the even significand: \<open>expo\<close> is the binary exponent
  \<open>floor(log2 x)\<close> of a positive number, computed from bit lengths, and \<open>ulp\<close> the
  distance between neighbouring doubles with 53 significant bits. The exponent is not
  limited, so \<open>rd\<close> is the double rounding for magnitudes between \<open>2^-1022\<close> and
  \<open>2^1024\<close> (no underflow, no overflow). \<open>dbl v\<close> is the double nearest to the integer
  \<open>v\<close>, itself an integer.
\<close>

definition expo :: "real \<Rightarrow> int" where
  "expo x = (if 1 \<le> x then bitlen \<lfloor>x\<rfloor> - 1 else - bitlen (\<lceil>1 / x\<rceil> - 1))"

definition round_even :: "real \<Rightarrow> int" where
  "round_even y =
     (let f = \<lfloor>y\<rfloor>; d = y - real_of_int f
      in if d < 1 / 2 then f else if 1 / 2 < d then f + 1 else if even f then f else f + 1)"

definition ulp :: "real \<Rightarrow> real" where
  "ulp x = 2 powi (expo \<bar>x\<bar> - 52)"

definition rd :: "real \<Rightarrow> real" where
  "rd x = (if x = 0 then 0 else real_of_int (round_even (x / ulp x)) * ulp x)"

definition dbl :: "int \<Rightarrow> int" where
  "dbl v = \<lfloor>rd (real_of_int v)\<rfloor>"

subsection \<open>Numbers in the aggregation pipeline\<close>

text \<open>
  A number with an integer value in a pipeline is a 32-bit or 64-bit integer
  (\<open>Exact\<close>) or a double (\<open>Approx\<close>). The driver sends a JavaScript number with an
  integer value as a 32-bit integer when it fits, and as a double otherwise. \<open>$add\<close>
  and \<open>$multiply\<close> on integers are exact while the result fits in 64 bits; when it
  does not, or when an operand is a double, the operands are taken as doubles and the
  result is rounded to a double. \<open>$mod\<close> is exact on both kinds.
\<close>

definition int32 :: "int \<Rightarrow> bool" where
  "int32 v = (- 2147483648 \<le> v \<and> v \<le> 2147483647)"

definition int64 :: "int \<Rightarrow> bool" where
  "int64 v = (- 9223372036854775808 \<le> v \<and> v \<le> 9223372036854775807)"

datatype num = Exact int | Approx int

fun num_value :: "num \<Rightarrow> int" where
  "num_value (Exact v) = v"
| "num_value (Approx v) = v"

definition jsNumber :: "int \<Rightarrow> num" where
  "jsNumber v = (if int32 v then Exact v else Approx (dbl v))"

fun mongo_add :: "num \<Rightarrow> num \<Rightarrow> num" where
  "mongo_add (Exact a) (Exact b) =
     (if int64 (a + b) then Exact (a + b) else Approx (dbl (dbl a + dbl b)))"
| "mongo_add x y = Approx (dbl (dbl (num_value x) + dbl (num_value y)))"

fun mongo_multiply :: "num \<Rightarrow> num \<Rightarrow> num" where
  "mongo_multiply (Exact a) (Exact b) =
     (if int64 (a * b) then Exact (a * b) else Approx (dbl (dbl a * dbl b)))"
| "mongo_multiply x y = Approx (dbl (dbl (num_value x) * dbl (num_value y)))"

text \<open>\<open>{ $match: { gameCategory } }\<close> and \<open>countDocuments({ gameCategory })\<close>.\<close>

definition match :: "string \<Rightarrow> offer list \<Rightarrow> offer list" where
  "match cat store = filter (\<lambda>d. gameCategory d = cat) store"

definition countDocuments :: "string \<Rightarrow> offer list \<Rightarrow> int" where
  "countDocuments cat store = int (length (filter (\<lambda>d. gameCategory d = cat) store))"

text \<open>
  \<open>$sort\<close> as a stable insertion sort on a comparison: documents that the sort
  specification does not distinguish keep the order in which they arrive.
\<close>

fun insert_by :: "('a \<Rightarrow> 'a \<Rightarrow> bool) \<Rightarrow> 'a \<Rightarrow> 'a list \<Rightarrow> 'a list" where
  "insert_by le x [] = [x]"
| "insert_by le x (y # ys) = (if le x y then x # y # ys else y # insert_by le x ys)"

definition sort_by :: "('a \<Rightarrow> 'a \<Rightarrow> bool) \<Rightarrow> 'a list \<Rightarrow> 'a list" where
  "sort_by le xs = foldr (insert_by le) xs []"

text \<open>\<open>{ rating: -1, createdAt: -1 }\<close>.\<close>

definition quality_le :: "'a offer_scheme \<Rightarrow> 'a offer_scheme \<Rightarrow> bool" where
  "quality_le a b =
     (rating b < rating a \<or> (rating a = rating b \<and> createdAt b \<le> createdAt a))"

text \<open>\<open>$skip\<close> and \<open>$limit\<close> on a pipeline that the store has accepted.\<close>

definition skip_limit :: "int \<Rightarrow> int \<Rightarrow> 'a list \<Rightarrow> 'a list" where
  "skip_limit skip limit xs = take (nat limit) (drop (nat skip) xs)"

section \<open>Seed and pagination block\<close>

definition seedInterval :: int where
  "seedInterval = seedUpdateIntervalMinutes * 60000"

text \<open>\<open>randomSeed || Math.floor(Date.now() / seedInterval)\<close>, \<open>now\<close> being \<open>Date.now()\<close>.\<close>

definition seedFor :: "int option \<Rightarrow> int \<Rightarrow> int" where
  "seedFor randomSeed now = js_or randomSeed (now div seedInterval)"

definition paginationOf :: "int \<Rightarrow> int \<Rightarrow> int \<Rightarrow> pagination" where
  "paginationOf pg limit totalCount =
     \<lparr> p_page = pg, p_limit = limit, p_total = totalCount,
       p_totalPages = js_ceil_div totalCount limit,
       p_hasNextPage = (pg * limit < totalCount),
       p_hasPrevPage = (1 < pg) \<rparr>"

section \<open>Method 1: hash-based round-robin\<close>

record hashed_offer = offer +
  sellerHash :: int
  seedUsed :: int

text \<open>
  The \<open>sellerHash\<close> expression of the \<open>$addFields\<close> stage; \<open>seed\<close> is the JavaScript
  number put into the pipeline, \<open>$toInt\<close> gives a 32-bit integer.
\<close>

definition sellerNumber :: "string \<Rightarrow> error + int" where
  "sellerNumber sid = toInt (if 7 < strLenCP sid then substr sid 7 else ''1'')"

definition sellerHashOf :: "int \<Rightarrow> string \<Rightarrow> error + int" where
  "sellerHashOf seed sid =
     (case sellerNumber sid of
        Inl e \<Rightarrow> Inl e
      | Inr n \<Rightarrow>
          Inr (mongo_mod
                 (num_value (mongo_multiply (mongo_add (Exact n) (jsNumber seed))
                                            (mongo_add (jsNumber seed) (Exact 37))))
                 10000))"

fun addHashFields :: "int \<Rightarrow> offer list \<Rightarrow> error + hashed_offer list" where
  "addHashFields seed [] = Inr []"
| "addHashFields seed (d # ds) =
     (case sellerHashOf seed (sellerId d) of
        Inl e \<Rightarrow> Inl e
      | Inr h \<Rightarrow>
          (case addHashFields seed ds of
             Inl e \<Rightarrow> Inl e
           | Inr hs \<Rightarrow>
               Inr (\<lparr> offer_id = offer_id d, gameCategory = gameCategory d,
                      sellerId = sellerId d, rating = rating d, createdAt = createdAt d,
                      sellerHash = h, seedUsed = seed \<rparr> # hs)))"

text \<open>\<open>{ sellerHash: 1, rating: -1, createdAt: -1 }\<close>.\<close>

definition hash_le :: "hashed_offer \<Rightarrow> hashed_offer \<Rightarrow> bool" where
  "hash_le a b =
     (sellerHash a < sellerHash b \<or> (sellerHash a = sellerHash b \<and> quality_le a b))"

text \<open>The pipeline up to and including its \<open>$sort\<close> stage.\<close>

definition hashOrdered :: "int \<Rightarrow> string \<Rightarrow> offer list \<Rightarrow> error + hashed_offer list" where
  "hashOrdered seed cat store =
     (case addHashFields seed (match cat store) of
        Inl e \<Rightarrow> Inl e
      | Inr docs \<Rightarrow> Inr (sort_by hash_le docs))"

text \<open>
  \<open>getOffersHashRoundRobin(gameCategory, page, limit, randomSeed)\<close> on the collection
  \<open>store\<close> at time \<open>now\<close>. The store refuses the pipeline before running it when
  \<open>$skip\<close> is negative or \<open>$limit\<close> is not positive.
\<close>

definition getOffersHashRoundRobin ::
  "offer list \<Rightarrow> int \<Rightarrow> string \<Rightarrow> int \<Rightarrow> int option \<Rightarrow> int option
     \<Rightarrow> error + hashed_offer result" where
  "getOffersHashRoundRobin store now cat pg lm randomSeed =
     (let limit = js_or lm defaultPageSize;
          skip = (pg - 1) * limit;
          seed = seedFor randomSeed now
      in if skip < 0 then Inl (SkipNegative skip)
         else if limit \<le> 0 then Inl (LimitNotPositive limit)
         else (case hashOrdered seed cat store of
                 Inl e \<Rightarrow> Inl e
               | Inr docs \<Rightarrow>
                   Inr \<lparr> r_offers = skip_limit skip limit docs,
                         r_pagination = paginationOf pg limit (countDocuments cat store),
                         r_seed = Some seed,
                         r_maxPerSeller = None,
                         r_method = ''Hash-Based Round-Robin'' \<rparr>))"

section \<open>Method 2: true round-robin\<close>

text \<open>A document of the \<open>$group\<close> stage: \<open>_id\<close>, \<open>offers\<close>, \<open>sellerOrder\<close>.\<close>

record sellerGroup =
  group_id :: string
  offers :: "offer list"
  sellerOrder :: int

text \<open>The \<open>sellerOrder\<close> expression; there is no length test and no fallback here.\<close>

definition sellerOrderOf :: "int \<Rightarrow> string \<Rightarrow> error + int" where
  "sellerOrderOf seed sid =
     (case toInt (substr sid 7) of
        Inl e \<Rightarrow> Inl e
      | Inr n \<Rightarrow> Inr (mongo_mod (num_value (mongo_add (Exact n) (jsNumber seed))) 1000))"

text \<open>
  The keys of a \<open>$group\<close> stage by \<open>sellerId\<close>: every seller once. The store does not
  promise an order of the groups; they are taken in the order in which the sellers
  first appear.
\<close>

fun groupKeys :: "offer list \<Rightarrow> string list" where
  "groupKeys [] = []"
| "groupKeys (d # ds) = sellerId d # filter (\<lambda>k. k \<noteq> sellerId d) (groupKeys ds)"

fun groupStage :: "int \<Rightarrow> offer list \<Rightarrow> string list \<Rightarrow> error + sellerGroup list" where
  "groupStage seed docs [] = Inr []"
| "groupStage seed docs (k # ks) =
     (case sellerOrderOf seed k of
        Inl e \<Rightarrow> Inl e
      | Inr n \<Rightarrow>
          (case groupStage seed docs ks of
             Inl e \<Rightarrow> Inl e
           | Inr gs \<Rightarrow>
               Inr (\<lparr> group_id = k,
                      offers = filter (\<lambda>d. sellerId d = k) docs,
                      sellerOrder = n \<rparr> # gs)))"

text \<open>\<open>{ sellerOrder: 1 }\<close>.\<close>

definition order_le :: "sellerGroup \<Rightarrow> sellerGroup \<Rightarrow> bool" where
  "order_le a b = (sellerOrder a \<le> sellerOrder b)"

text \<open>The whole pipeline: \<open>$match\<close>, \<open>$sort\<close>, \<open>$group\<close>, \<open>$sort\<close>.\<close>

definition trueAggregate :: "int \<Rightarrow> string \<Rightarrow> offer list \<Rightarrow> error + sellerGroup list" where
  "trueAggregate seed cat store =
     (let docs = sort_by quality_le (match cat store)
      in case groupStage seed docs (groupKeys docs) of
           Inl e \<Rightarrow> Inl e
         | Inr gs \<Rightarrow> Inr (sort_by order_le gs))"

text \<open>
  The two nested loops. The inner one walks the seller groups and pushes
  \<open>sellerGroup.offers[round]\<close> when it is there (a document is truthy, \<open>undefined\<close>
  is not); the outer one counts the rounds up to \<open>maxOffersPerSeller\<close>.
\<close>

fun sellerLoop :: "sellerGroup list \<Rightarrow> nat \<Rightarrow> offer list \<Rightarrow> offer list" where
  "sellerLoop [] rnd acc = acc"
| "sellerLoop (g # gs) rnd acc =
     sellerLoop gs rnd (case js_index (offers g) rnd of None \<Rightarrow> acc | Some d \<Rightarrow> acc @ [d])"

function roundLoop :: "sellerGroup list \<Rightarrow> nat option \<Rightarrow> nat \<Rightarrow> offer list \<Rightarrow> offer list" where
  "roundLoop groups bound rnd acc =
     (if js_less rnd bound then roundLoop groups bound (Suc rnd) (sellerLoop groups rnd acc)
      else acc)"
  by pat_completeness auto
termination
  by (relation "measure (\<lambda>(groups, bound, rnd, acc). case bound of None \<Rightarrow> 0 | Some m \<Rightarrow> m - rnd)")
    (auto simp: js_less_def split: option.splits)

declare roundLoop.simps [simp del]

definition roundRobin :: "sellerGroup list \<Rightarrow> offer list" where
  "roundRobin sellerGroups =
     roundLoop sellerGroups (js_Math_max (map (\<lambda>g. length (offers g)) sellerGroups)) 0 []"

text \<open>\<open>getOffersTrueRoundRobin(gameCategory, page, limit, randomSeed)\<close>.\<close>

definition getOffersTrueRoundRobin ::
  "offer list \<Rightarrow> int \<Rightarrow> string \<Rightarrow> int \<Rightarrow> int option \<Rightarrow> int option
     \<Rightarrow> error + offer result" where
  "getOffersTrueRoundRobin store now cat pg lm randomSeed =
     (let limit = js_or lm defaultPageSize;
          skip = (pg - 1) * limit;
          seed = seedFor randomSeed now
      in case trueAggregate seed cat store of
           Inl e \<Rightarrow> Inl e
         | Inr sellerGroups \<Rightarrow>
             Inr \<lparr> r_offers = js_slice (roundRobin sellerGroups) skip (skip + limit),
                   r_pagination = paginationOf pg limit (countDocuments cat store),
                   r_seed = Some seed,
                   r_maxPerSeller = None,
                   r_method = ''True Round-Robin (JavaScript)'' \<rparr>)"

text \<open>
  The interleaving as the specification words it: for each round from 0 to the largest
  group size minus 1, the element at that index of every group that has one, in group
  order.
\<close>

definition maxGroupSize :: "'a list list \<Rightarrow> nat" where
  "maxGroupSize gs = fold max (map length gs) 0"

definition interleave :: "'a list list \<Rightarrow> 'a list" where
  "interleave gs =
     concat (map (\<lambda>r. concat (map (\<lambda>g. if r < length g then [g ! r] else []) gs))
               [0 ..< maxGroupSize gs])"

section \<open>Method 3: weighted random\<close>

record scored_offer = offer +
  sellerOfferCount :: int
  randomScore :: real
  weightedScore :: real

text \<open>The \<open>$lookup\<close> with \<open>$count\<close>: the offers of the same seller in the same category.\<close>

definition sellerStatsCount :: "offer list \<Rightarrow> offer \<Rightarrow> int" where
  "sellerStatsCount store d =
     int (length (filter (\<lambda>e. sellerId e = sellerId d \<and> gameCategory e = gameCategory d) store))"

text \<open>
  The two \<open>$addFields\<close> stages. \<open>rand i\<close> is the value that \<open>$rand\<close> draws for the
  \<open>i\<close>-th document; the draws are an input of the model.
\<close>

fun addScores :: "offer list \<Rightarrow> (nat \<Rightarrow> real) \<Rightarrow> nat \<Rightarrow> offer list \<Rightarrow> scored_offer list" where
  "addScores store rand i [] = []"
| "addScores store rand i (d # ds) =
     \<lparr> offer_id = offer_id d, gameCategory = gameCategory d, sellerId = sellerId d,
       rating = rating d, createdAt = createdAt d,
       sellerOfferCount = sellerStatsCount store d,
       randomScore = rand i,
       weightedScore = rand i * 100 + 100 / (real_of_int (sellerStatsCount store d) + 1) \<rparr>
     # addScores store rand (Suc i) ds"

text \<open>\<open>{ weightedScore: -1 }\<close>.\<close>

definition score_le :: "scored_offer \<Rightarrow> scored_offer \<Rightarrow> bool" where
  "score_le a b = (weightedScore b \<le> weightedScore a)"

definition weightedOrdered :: "offer list \<Rightarrow> (nat \<Rightarrow> real) \<Rightarrow> string \<Rightarrow> scored_offer list" where
  "weightedOrdered store rand cat = sort_by score_le (addScores store rand 0 (match cat store))"

text \<open>The final \<open>$project\<close> removes the helper fields.\<close>

definition dropScores :: "scored_offer \<Rightarrow> offer" where
  "dropScores d =
     \<lparr> offer_id = offer_id d, gameCategory = gameCategory d, sellerId = sellerId d,
       rating = rating d, createdAt = createdAt d \<rparr>"

definition getOffersWeightedRandom ::
  "offer list \<Rightarrow> (nat \<Rightarrow> real) \<Rightarrow> string \<Rightarrow> int \<Rightarrow> int option \<Rightarrow> error + offer result" where
  "getOffersWeightedRandom store rand cat pg lm =
     (let limit = js_or lm defaultPageSize;
          skip = (pg - 1) * limit
      in if skip < 0 then Inl (SkipNegative skip)
         else if limit \<le> 0 then Inl (LimitNotPositive limit)
         else Inr \<lparr> r_offers = map dropScores (skip_limit skip limit (weightedOrdered store rand cat)),
                    r_pagination = paginationOf pg limit (countDocuments cat store),
                    r_seed = None,
                    r_maxPerSeller = None,
                    r_method = ''Weighted Random Distribution'' \<rparr>)"

section \<open>Method 4: quota-based\<close>

record quotaGroup =
  quota_id :: string
  topOffers :: "offer list"
  randomOrder :: real

text \<open>\<open>{ $slice: [array, n] }\<close>: the first \<open>n\<close> elements, or the last \<open>-n\<close> when \<open>n\<close> is negative.\<close>

definition mongo_slice :: "'a list \<Rightarrow> int \<Rightarrow> 'a list" where
  "mongo_slice xs n = (if 0 \<le> n then take (nat n) xs else drop (length xs - nat (- n)) xs)"

text \<open>The \<open>$group\<close> stage; \<open>rand i\<close> is the \<open>$rand\<close> value of the \<open>i\<close>-th group.\<close>

fun quotaGroupStage :: "offer list \<Rightarrow> (nat \<Rightarrow> real) \<Rightarrow> nat \<Rightarrow> string list \<Rightarrow> quotaGroup list" where
  "quotaGroupStage docs rand i [] = []"
| "quotaGroupStage docs rand i (k # ks) =
     \<lparr> quota_id = k, topOffers = filter (\<lambda>d. sellerId d = k) docs, randomOrder = rand i \<rparr>
     # quotaGroupStage docs rand (Suc i) ks"

text \<open>The \<open>$project\<close> stage with \<open>$slice\<close>.\<close>

definition limitPerSeller :: "int \<Rightarrow> quotaGroup \<Rightarrow> quotaGroup" where
  "limitPerSeller maxPerSeller g = g \<lparr> topOffers := mongo_slice (topOffers g) maxPerSeller \<rparr>"

text \<open>\<open>{ randomOrder: 1 }\<close>.\<close>

definition random_le :: "quotaGroup \<Rightarrow> quotaGroup \<Rightarrow> bool" where
  "random_le a b = (randomOrder a \<le> randomOrder b)"

text \<open>
  The pipeline up to \<open>$unwind\<close> and \<open>$replaceRoot\<close>: the flattened sequence before
  \<open>$skip\<close> and \<open>$limit\<close>.
\<close>

definition quotaFlattened :: "(nat \<Rightarrow> real) \<Rightarrow> int \<Rightarrow> string \<Rightarrow> offer list \<Rightarrow> offer list" where
  "quotaFlattened rand maxPerSeller cat store =
     (let docs = sort_by quality_le (match cat store);
          groups = quotaGroupStage docs rand 0 (groupKeys docs)
      in concat (map topOffers (sort_by random_le (map (limitPerSeller maxPerSeller) groups))))"

text \<open>\<open>maxPerSeller || default\<close>, then the cap at \<open>maxMaxOffersPerSeller\<close>.\<close>

definition quotaOf :: "int option \<Rightarrow> int" where
  "quotaOf maxPerSeller =
     (let m = js_or maxPerSeller defaultMaxOffersPerSeller
      in if maxMaxOffersPerSeller < m then maxMaxOffersPerSeller else m)"

definition getOffersQuotaBased ::
  "offer list \<Rightarrow> (nat \<Rightarrow> real) \<Rightarrow> string \<Rightarrow> int \<Rightarrow> int option \<Rightarrow> int option
     \<Rightarrow> error + offer result" where
  "getOffersQuotaBased store rand cat pg lm maxPerSeller =
     (let limit = js_or lm defaultPageSize;
          m = quotaOf maxPerSeller;
          skip = (pg - 1) * limit
      in if skip < 0 then Inl (SkipNegative skip)
         else if limit \<le> 0 then Inl (LimitNotPositive limit)
         else Inr \<lparr> r_offers = skip_limit skip limit (quotaFlattened rand m cat store),
                    r_pagination = paginationOf pg limit (countDocuments cat store),
                    r_seed = None,
                    r_maxPerSeller = Some m,
                    r_method = ''Quota-Based Distribution'' \<rparr>)"

section \<open>Currency conversion\<close>

text \<open>
  \<open>x.toFixed(4)\<close> is the decimal with four fractional digits nearest to the exact
  value of the double \<open>x\<close>, a tie going away from zero (for magnitudes below
  \<open>10^21\<close>); \<open>toFixed4 x\<close> is its value. \<open>parseFloat\<close> of that string is the double
  nearest to it.
\<close>

definition toFixed4 :: "real \<Rightarrow> real" where
  "toFixed4 x =
     (if x < 0 then - (real_of_int \<lfloor>- x * 10000 + 1 / 2\<rfloor> / 10000)
      else real_of_int \<lfloor>x * 10000 + 1 / 2\<rfloor> / 10000)"

text \<open>
  \<open>convertToUSD\<close> and \<open>convertFromUSD\<close> on the rate cache (currency to USD rate);
  \<open>!rate\<close> holds for a missing rate and for the rate 0. Prices and rates are doubles:
  the product \<open>price * rate\<close>, the quotient \<open>1 / toUSDRate\<close> and the product with it
  are each rounded to a double before \<open>toFixed(4)\<close> and \<open>parseFloat\<close>.
\<close>

definition convertToUSD :: "(string \<rightharpoonup> real) \<Rightarrow> real \<Rightarrow> string \<Rightarrow> error + real" where
  "convertToUSD exchangeRatesCache price fromCurrency =
     (if fromCurrency = ''USD'' then Inr price
      else (case exchangeRatesCache fromCurrency of
              None \<Rightarrow> Inl (RateNotFound fromCurrency)
            | Some rate \<Rightarrow>
                if rate = 0 then Inl (RateNotFound fromCurrency)
                else Inr (rd (toFixed4 (rd (price * rate))))))"

definition convertFromUSD :: "(string \<rightharpoonup> real) \<Rightarrow> real \<Rightarrow> string \<Rightarrow> error + real" where
  "convertFromUSD exchangeRatesCache usdPrice toCurrency =
     (if toCurrency = ''USD'' then Inr usdPrice
      else (case exchangeRatesCache toCurrency of
              None \<Rightarrow> Inl (RateNotFound toCurrency)
            | Some toUSDRate \<Rightarrow>
                if toUSDRate = 0 then Inl (RateNotFound toCurrency)
                else Inr (rd (toFixed4 (rd (usdPrice * rd (1 / toUSDRate)))))))"

text \<open>
  The cache after \<open>initializeExchangeRates\<close> and \<open>refreshExchangeRateCache\<close>: each rate
  is \<open>parseFloat\<close> of the stored decimal.
\<close>

definition initialRates :: "string \<rightharpoonup> real" where
  "initialRates =
     [''PHP'' \<mapsto> rd (178 / 10000), ''IDR'' \<mapsto> rd (635 / 10000000),
      ''MYR'' \<mapsto> rd (2247 / 10000), ''USD'' \<mapsto> 1]"

section \<open>Example data\<close>

text \<open>
  A small collection for evaluating the methods: in category RPG seller_1 has five
  offers, seller_2 and seller_3 have two each, and seller_2 has one more offer in FPS.
  \<open>sampleGroups\<close> and \<open>sampleInterleaved\<close> are what the true round-robin computes from
  it with the seed 998 (lemmas \<open>sample_groups\<close> and \<open>sample_roundRobin\<close> below).
\<close>

definition mkOffer :: "string \<Rightarrow> string \<Rightarrow> string \<Rightarrow> real \<Rightarrow> int \<Rightarrow> offer" where
  "mkOffer i c s r t = \<lparr> offer_id = i, gameCategory = c, sellerId = s, rating = r, createdAt = t \<rparr>"

definition sampleOffers :: "offer list" where
  "sampleOffers =
     [ mkOffer ''offer_1'' ''RPG'' ''seller_1'' (9 / 2) 100,
       mkOffer ''offer_2'' ''RPG'' ''seller_2'' 4 200,
       mkOffer ''offer_3'' ''RPG'' ''seller_1'' 3 300,
       mkOffer ''offer_4'' ''RPG'' ''seller_3'' (7 / 2) 400,
       mkOffer ''offer_5'' ''RPG'' ''seller_1'' 5 500,
       mkOffer ''offer_6'' ''FPS'' ''seller_2'' 5 600,
       mkOffer ''offer_7'' ''RPG'' ''seller_1'' (5 / 2) 700,
       mkOffer ''offer_8'' ''RPG'' ''seller_2'' (3 / 2) 800,
       mkOffer ''offer_9'' ''RPG'' ''seller_3'' 5 900,
       mkOffer ''offer_10'' ''RPG'' ''seller_1'' 4 1000 ]"

definition sampleGroups :: "sellerGroup list" where
  "sampleGroups =
     [ \<lparr> group_id = ''seller_2'',
         offers = [ mkOffer ''offer_2'' ''RPG'' ''seller_2'' 4 200,
                    mkOffer ''offer_8'' ''RPG'' ''seller_2'' (3 / 2) 800 ],
         sellerOrder = 0 \<rparr>,
       \<lparr> group_id = ''seller_3'',
         offers = [ mkOffer ''offer_9'' ''RPG'' ''seller_3'' 5 900,
                    mkOffer ''offer_4'' ''RPG'' ''seller_3'' (7 / 2) 400 ],
         sellerOrder = 1 \<rparr>,
       \<lparr> group_id = ''seller_1'',
         offers = [ mkOffer ''offer_5'' ''RPG'' ''seller_1'' 5 500,
                    mkOffer ''offer_1'' ''RPG'' ''seller_1'' (9 / 2) 100,
                    mkOffer ''offer_10'' ''RPG'' ''seller_1'' 4 1000,
                    mkOffer ''offer_3'' ''RPG'' ''seller_1'' 3 300,
                    mkOffer ''offer_7'' ''RPG'' ''seller_1'' (5 / 2) 700 ],
         sellerOrder = 999 \<rparr> ]"

definition sampleInterleaved :: "offer list" where
  "sampleInterleaved =
     [ mkOffer ''offer_2'' ''RPG'' ''seller_2'' 4 200,
       mkOffer ''offer_9'' ''RPG'' ''seller_3'' 5 900,
       mkOffer ''offer_5'' ''RPG'' ''seller_1'' 5 500,
       mkOffer ''offer_8'' ''RPG'' ''seller_2'' (3 / 2) 800,
       mkOffer ''offer_4'' ''RPG'' ''seller_3'' (7 / 2) 400,
       mkOffer ''offer_1'' ''RPG'' ''seller_1'' (9 / 2) 100,
       mkOffer ''offer_10'' ''RPG'' ''seller_1'' 4 1000,
       mkOffer ''offer_3'' ''RPG'' ''seller_1'' 3 300,
       mkOffer ''offer_7'' ''RPG'' ''seller_1'' (5 / 2) 700 ]"

section \<open>The seller number as specified\<close>

text \<open>
  The seller number as the specification words it, for comparison with \<open>sellerNumber\<close>:
  the numeric suffix of the identifier, and the constant 1 when the identifier is shorter
  than 8 characters or has no numeric suffix.
\<close>

definition numericSuffix :: "string \<Rightarrow> string" where
  "numericSuffix s = rev (takeWhile is_digit (rev s))"



text \<open>
  The key of a seller group as the specification words it, for comparison with
  \<open>sellerOrderOf\<close>: the numeric suffix of the identifier plus the seed, modulo 1000.
\<close>

definition claimedSellerOrder :: "int \<Rightarrow> string \<Rightarrow> int option" where
  "claimedSellerOrder seed sid =
     map_option (\<lambda>n. (int n + seed) mod 1000) (parse_digits (numericSuffix sid))"

section \<open>More example data\<close>

text \<open>Two sellers whose numeric suffix is not what follows index 7.\<close>

definition suffixSample :: "offer list" where
  "suffixSample =
     [ mkOffer ''offer_1'' ''RPG'' ''seller_5'' 5 100,
       mkOffer ''offer_2'' ''RPG'' ''seller12'' 4 200 ]"

text \<open>
  Three offers of one category: seller_1, seller_2 and a seller whose identifier is
  shorter than 8 characters.
\<close>

definition hashSample :: "offer list" where
  "hashSample =
     [ mkOffer ''offer_1'' ''RPG'' ''seller_1'' 4 100,
       mkOffer ''offer_2'' ''RPG'' ''seller_2'' 4 100,
       mkOffer ''offer_3'' ''RPG'' ''shop'' 5 50 ]"

definition mkHashed :: "string \<Rightarrow> string \<Rightarrow> string \<Rightarrow> real \<Rightarrow> int \<Rightarrow> int \<Rightarrow> int \<Rightarrow> hashed_offer" where
  "mkHashed i c s r t h sd =
     \<lparr> offer_id = i, gameCategory = c, sellerId = s, rating = r, createdAt = t,
       sellerHash = h, seedUsed = sd \<rparr>"

text \<open>One seller with two offers, for the quota-based method.\<close>

definition quotaSample :: "offer list" where
  "quotaSample =
     [ mkOffer ''offer_1'' ''RPG'' ''seller_1'' 5 100,
       mkOffer ''offer_2'' ''RPG'' ''seller_1'' 3 200 ]"

text \<open>Two sellers in RPG, seller_1 with two offers and seller_2 with one, for the weighted method.\<close>

definition weightedSample :: "offer list" where
  "weightedSample =
     [ mkOffer ''offer_1'' ''RPG'' ''seller_1'' 4 100,
       mkOffer ''offer_2'' ''RPG'' ''seller_2'' 3 200,
       mkOffer ''offer_3'' ''RPG'' ''seller_1'' 5 300,
       mkOffer ''offer_4'' ''FPS'' ''seller_2'' 5 400 ]"

section \<open>The pager as specified\<close>



section \<open>Sorting, grouping and slicing\<close>

lemma mset_insert_by: "mset (insert_by le x xs) = add_mset x (mset xs)"
  by (induction xs) auto

lemma mset_sort_by: "mset (sort_by le xs) = mset xs"
  by (induction xs) (auto simp: sort_by_def mset_insert_by)

lemma set_sort_by: "set (sort_by le xs) = set xs"
  by (metis mset_sort_by set_mset_mset)

lemma length_sort_by: "length (sort_by le xs) = length xs"
  by (metis mset_sort_by size_mset)

lemma set_insert_by: "set (insert_by le x xs) = insert x (set xs)"
  by (induction xs) auto

lemma sorted_insert_by:
  assumes total: "\<And>a b. le a b \<or> le b a"
    and trans: "\<And>a b c. le a b \<Longrightarrow> le b c \<Longrightarrow> le a c"
  shows "sorted_wrt le xs \<Longrightarrow> sorted_wrt le (insert_by le x xs)"
proof (induction xs)
  case Nil
  then show ?case by simp
next
  case (Cons y ys)
  show ?case
  proof (cases "le x y")
    case True
    then have "\<forall>z\<in>set ys. le x z" using Cons.prems trans by auto
    with True Cons.prems show ?thesis by simp
  next
    case False
    then have "le y x" using total by blast
    with False Cons show ?thesis by (auto simp: set_insert_by)
  qed
qed

lemma sorted_sort_by:
  assumes total: "\<And>a b. le a b \<or> le b a"
    and trans: "\<And>a b c. le a b \<Longrightarrow> le b c \<Longrightarrow> le a c"
  shows "sorted_wrt le (sort_by le xs)"
proof (induction xs)
  case Nil
  then show ?case by (simp add: sort_by_def)
next
  case (Cons x xs)
  have "sort_by le (x # xs) = insert_by le x (sort_by le xs)" by (simp add: sort_by_def)
  with Cons sorted_insert_by[of le, OF total trans] show ?case by simp
qed

lemma quality_le_total: "quality_le a b \<or> quality_le b a"
  by (auto simp: quality_le_def)

lemma quality_le_trans: "quality_le a b \<Longrightarrow> quality_le b c \<Longrightarrow> quality_le a c"
  by (auto simp: quality_le_def)



lemma set_groupKeys: "set (groupKeys ds) = sellerId ` set ds"
  by (induction ds) auto

lemma distinct_groupKeys: "distinct (groupKeys ds)"
  by (induction ds) auto

lemma mset_filter_split:
  "k \<notin> set ks \<Longrightarrow>
   mset (filter (\<lambda>d. f d = k) ds) + mset (filter (\<lambda>d. f d \<in> set ks) ds)
     = mset (filter (\<lambda>d. f d \<in> set (k # ks)) ds)"
  by (induction ds) auto

lemma mset_concat_filters:
  "distinct ks \<Longrightarrow>
   mset (concat (map (\<lambda>k. filter (\<lambda>d. f d = k) ds) ks)) = mset (filter (\<lambda>d. f d \<in> set ks) ds)"
proof (induction ks)
  case Nil
  then show ?case by simp
next
  case (Cons k ks)
  then have "k \<notin> set ks" and "distinct ks" by simp_all
  with Cons.IH mset_filter_split[of k ks f ds] show ?case by simp
qed

lemma mset_groups:
  "mset (concat (map (\<lambda>k. filter (\<lambda>d. sellerId d = k) ds) (groupKeys ds))) = mset ds"
proof -
  have "filter (\<lambda>d. sellerId d \<in> set (groupKeys ds)) ds = ds"
    by (simp add: set_groupKeys)
  with mset_concat_filters[OF distinct_groupKeys, of sellerId ds ds] show ?thesis by simp
qed

lemma mset_concat_map_cong:
  "mset xs = mset ys \<Longrightarrow> mset (concat (map f xs)) = mset (concat (map f ys))"
proof -
  assume "mset xs = mset ys"
  then have "mset (map (\<lambda>x. mset (f x)) xs) = mset (map (\<lambda>x. mset (f x)) ys)"
    by (metis mset_map)
  then have "sum_list (map (\<lambda>x. mset (f x)) xs) = sum_list (map (\<lambda>x. mset (f x)) ys)"
    by (metis sum_mset_sum_list)
  then show ?thesis by (simp add: mset_concat comp_def)
qed

lemma sellerLoop_eq:
  "sellerLoop gs r acc =
     acc @ concat (map (\<lambda>g. if r < length (offers g) then [offers g ! r] else []) gs)"
  by (induction gs arbitrary: acc) (auto simp: js_index_def)

lemma roundLoop_None: "roundLoop gs None r acc = acc"
  by (simp add: roundLoop.simps js_less_def)

lemma roundLoop_Some:
  "roundLoop gs (Some m) r acc =
     acc @ concat (map (\<lambda>i. concat (map (\<lambda>g. if i < length (offers g) then [offers g ! i] else []) gs))
                     [r ..< m])"
proof (induction gs "Some m" r acc rule: roundLoop.induct)
  case (1 groups rnd acc)
  show ?case
  proof (cases "rnd < m")
    case True
    then have "roundLoop groups (Some m) rnd acc
        = roundLoop groups (Some m) (Suc rnd) (sellerLoop groups rnd acc)"
      by (subst roundLoop.simps) (simp add: js_less_def)
    also have "\<dots> = sellerLoop groups rnd acc @
        concat (map (\<lambda>i. concat (map (\<lambda>g. if i < length (offers g) then [offers g ! i] else []) groups))
                     [Suc rnd ..< m])"
      using True "1.hyps" by (simp add: js_less_def)
    finally show ?thesis using True by (simp add: sellerLoop_eq upt_conv_Cons)
  next
    case False
    then show ?thesis by (subst roundLoop.simps) (simp add: js_less_def)
  qed
qed

lemma js_Math_max_eq: "js_Math_max ns = (if ns = [] then None else Some (fold max ns 0))"
  by (cases ns) (simp_all add: js_Math_max_def)

lemma roundRobin_interleave: "roundRobin gs = interleave (map offers gs)"
proof (cases gs)
  case Nil
  then show ?thesis
    by (simp add: roundRobin_def interleave_def maxGroupSize_def js_Math_max_def roundLoop_None)
next
  case (Cons g gs')
  then show ?thesis
    by (simp add: roundRobin_def interleave_def maxGroupSize_def js_Math_max_eq roundLoop_Some
        comp_def del: fold_simps)
qed

lemma fold_max_ge_init: "a \<le> fold max xs (a::nat)"
  by (induction xs arbitrary: a) (auto intro: le_trans[OF max.cobounded2])

lemma fold_max_ge_elem: "x \<in> set xs \<Longrightarrow> x \<le> fold max xs (a::nat)"
proof (induction xs arbitrary: a)
  case Nil
  then show ?case by simp
next
  case (Cons y ys)
  show ?case
  proof (cases "x = y")
    case True
    have "y \<le> max y a" by simp
    also have "\<dots> \<le> fold max ys (max y a)" by (rule fold_max_ge_init)
    finally show ?thesis using True by simp
  next
    case False
    with Cons show ?thesis by simp
  qed
qed

lemma length_le_maxGroupSize: "g \<in> set gs \<Longrightarrow> length g \<le> maxGroupSize gs"
  by (simp add: maxGroupSize_def fold_max_ge_elem)

lemma column_take:
  "concat (map (\<lambda>r. if r < length g then [g ! r] else []) [0 ..< n]) = take n g"
proof (induction n)
  case 0
  then show ?case by simp
next
  case (Suc n)
  then show ?case by (simp add: take_Suc_conv_app_nth)
qed

lemma mset_concat_append_rows:
  "mset (concat (map (\<lambda>r. A r @ B r) rs))
     = mset (concat (map A rs)) + mset (concat (map B rs))"
  by (induction rs) auto

lemma mset_rounds:
  "(\<forall>g\<in>set gs. length g \<le> n) \<Longrightarrow>
   mset (concat (map (\<lambda>r. concat (map (\<lambda>g. if r < length g then [g ! r] else []) gs)) [0 ..< n]))
     = mset (concat gs)"
proof (induction gs)
  case Nil
  then show ?case by (induction n) auto
next
  case (Cons g gs)
  have "mset (concat (map (\<lambda>r. concat (map (\<lambda>g. if r < length g then [g ! r] else []) (g # gs))) [0 ..< n]))
      = mset (concat (map (\<lambda>r. (if r < length g then [g ! r] else [])
                                @ concat (map (\<lambda>g. if r < length g then [g ! r] else []) gs)) [0 ..< n]))"
    by simp
  also have "\<dots> = mset (take n g) + mset (concat gs)"
    using Cons by (simp only: mset_concat_append_rows column_take) simp
  finally show ?case using Cons.prems by simp
qed

lemma mset_interleave: "mset (interleave gs) = mset (concat gs)"
  unfolding interleave_def by (rule mset_rounds) (simp add: length_le_maxGroupSize)

lemma first_round:
  assumes "\<forall>g\<in>set gs. g \<noteq> []"
  shows "take (length gs) (interleave gs) = map hd gs"
proof (cases gs)
  case Nil
  then show ?thesis by simp
next
  case (Cons g gs')
  then have "g \<in> set gs" by simp
  with assms have "0 < length g" by auto
  also have "length g \<le> maxGroupSize gs" using \<open>g \<in> set gs\<close> by (rule length_le_maxGroupSize)
  finally have pos: "0 < maxGroupSize gs" .
  have row0: "concat (map (\<lambda>g. if 0 < length g then [g ! 0] else []) gs) = map hd gs"
    using assms by (induction gs) (auto simp: hd_conv_nth)
  have "interleave gs = map hd gs @
      concat (map (\<lambda>r. concat (map (\<lambda>g. if r < length g then [g ! r] else []) gs))
               [Suc 0 ..< maxGroupSize gs])"
    unfolding interleave_def using pos row0 by (simp add: upt_conv_Cons)
  then show ?thesis by simp
qed

lemma groupStage_Inr:
  "groupStage seed docs ks = Inr gs \<Longrightarrow>
   map group_id gs = ks \<and>
   map offers gs = map (\<lambda>k. filter (\<lambda>d. sellerId d = k) docs) ks \<and>
   (\<forall>g\<in>set gs. offers g = filter (\<lambda>d. sellerId d = group_id g) docs
               \<and> sellerOrderOf seed (group_id g) = Inr (sellerOrder g))"
proof (induction ks arbitrary: gs)
  case Nil
  then show ?case by simp
next
  case (Cons k ks)
  from Cons.prems obtain n gs' where
    n: "sellerOrderOf seed k = Inr n" and gs': "groupStage seed docs ks = Inr gs'"
    and gs: "gs = \<lparr> group_id = k, offers = filter (\<lambda>d. sellerId d = k) docs, sellerOrder = n \<rparr> # gs'"
    by (auto split: sum.splits)
  from Cons.IH[OF gs'] n gs show ?case by simp
qed


lemma take_min_length: "take (min n (length ys)) ys = take n ys"
  by (cases "n \<le> length ys") (simp_all add: min_def)

lemma js_slice_valid:
  assumes "0 \<le> skip" and "0 \<le> limit"
  shows "js_slice xs skip (skip + limit) = take (nat limit) (drop (nat skip) xs)"
proof (cases "skip < int (length xs)")
  case True
  have "nat (min (skip + limit) (int (length xs)) - skip)
      = min (nat limit) (length (drop (nat skip) xs))"
    using assms True by (auto simp: min_def)
  moreover have "take (min (nat limit) (length (drop (nat skip) xs))) (drop (nat skip) xs)
      = take (nat limit) (drop (nat skip) xs)"
    by (rule take_min_length)
  ultimately show ?thesis
    using assms True by (simp add: js_slice_def Let_def)
next
  case False
  then show ?thesis using assms by (simp add: js_slice_def Let_def min_def)
qed

lemma length_js_slice: "0 \<le> limit \<Longrightarrow> length (js_slice xs skip (skip + limit)) \<le> nat limit"
  by (auto simp: js_slice_def Let_def)

section \<open>Doubles and pipeline numbers\<close>

lemma expo_le: "0 < x \<Longrightarrow> 2 powi (expo x) \<le> x"
proof (cases "1 \<le> x")
  case True
  then have pos: "0 < \<lfloor>x\<rfloor>" by linarith
  then have b: "1 \<le> bitlen \<lfloor>x\<rfloor>" by (auto simp: bitlen_alt_def)
  from bitlen_bounds[OF pos] have "2 ^ nat (bitlen \<lfloor>x\<rfloor> - 1) \<le> \<lfloor>x\<rfloor>" by simp
  then have "real_of_int (2 ^ nat (bitlen \<lfloor>x\<rfloor> - 1)) \<le> real_of_int \<lfloor>x\<rfloor>"
    by (simp only: of_int_le_iff)
  also have "\<dots> \<le> x" by (rule of_int_floor_le)
  finally have "real_of_int (2 ^ nat (bitlen \<lfloor>x\<rfloor> - 1)) \<le> x" .
  then have "(2::real) ^ nat (bitlen \<lfloor>x\<rfloor> - 1) \<le> x" by simp
  moreover have "(2::real) powi (bitlen \<lfloor>x\<rfloor> - 1) = 2 ^ nat (bitlen \<lfloor>x\<rfloor> - 1)"
    using b by (simp add: power_int_def)
  ultimately show ?thesis using True by (simp add: expo_def)
next
  case False
  assume x: "0 < x"
  define N where "N = \<lceil>1 / x\<rceil>"
  from False x have "1 < 1 / x" by simp
  then have N2: "2 \<le> N" unfolding N_def by linarith
  then have pos: "0 < N - 1" by simp
  from bitlen_bounds[OF pos] have "N - 1 < 2 ^ nat (bitlen (N - 1))" by simp
  then have "N \<le> 2 ^ nat (bitlen (N - 1))" by simp
  then have "real_of_int N \<le> real_of_int (2 ^ nat (bitlen (N - 1)))"
    by (simp only: of_int_le_iff)
  then have "real_of_int N \<le> 2 ^ nat (bitlen (N - 1))" by simp
  moreover have "1 / x \<le> real_of_int N" unfolding N_def by linarith
  ultimately have le: "1 / x \<le> 2 ^ nat (bitlen (N - 1))" by linarith
  have p: "(0::real) < 2 ^ nat (bitlen (N - 1))" by simp
  from le x p have "1 / 2 ^ nat (bitlen (N - 1)) \<le> x"
    by (simp add: field_simps)
  moreover have "(2::real) powi (- bitlen (N - 1)) = 1 / 2 ^ nat (bitlen (N - 1))"
    using bitlen_nonneg[of "N - 1"] by (simp add: power_int_def field_simps)
  ultimately show ?thesis using False by (simp add: expo_def N_def)
qed

lemma round_even_error: "\<bar>real_of_int (round_even y) - y\<bar> \<le> 1 / 2"
  unfolding round_even_def Let_def by (auto simp: abs_le_iff)

lemma ulp_pos: "0 < ulp x"
  by (simp add: ulp_def)

lemma ulp_le: "x \<noteq> 0 \<Longrightarrow> ulp x \<le> \<bar>x\<bar> / 2 ^ 52"
proof -
  assume "x \<noteq> 0"
  then have "2 powi (expo \<bar>x\<bar>) \<le> \<bar>x\<bar>" by (intro expo_le) simp
  moreover have "ulp x = 2 powi (expo \<bar>x\<bar>) / 2 ^ 52"
    by (simp add: ulp_def power_int_diff)
  ultimately show ?thesis by (simp add: field_simps)
qed

text \<open>Rounding to a double changes a number by at most the fraction \<open>2^-53\<close> of it.\<close>

lemma rd_error: "\<bar>rd x - x\<bar> \<le> \<bar>x\<bar> / 2 ^ 53"
proof (cases "x = 0")
  case True
  then show ?thesis by (simp add: rd_def)
next
  case False
  let ?u = "ulp x"
  have u: "0 < ?u" by (rule ulp_pos)
  have "rd x - x = (real_of_int (round_even (x / ?u)) - x / ?u) * ?u"
    using False u by (simp add: rd_def field_simps)
  then have "\<bar>rd x - x\<bar> = \<bar>real_of_int (round_even (x / ?u)) - x / ?u\<bar> * ?u"
    using u by (simp add: abs_mult)
  also have "\<dots> \<le> (1 / 2) * ?u"
    using round_even_error[of "x / ?u"] u by (intro mult_right_mono) simp_all
  also have "\<dots> \<le> (1 / 2) * (\<bar>x\<bar> / 2 ^ 52)"
    using ulp_le[OF False] by simp
  also have "\<dots> = \<bar>x\<bar> / 2 ^ 53" by simp
  finally show ?thesis .
qed

lemma rd_nonneg: "0 \<le> x \<Longrightarrow> 0 \<le> rd x"
proof -
  assume x: "0 \<le> x"
  have "\<bar>rd x - x\<bar> \<le> \<bar>x\<bar> / 2 ^ 53" by (rule rd_error)
  moreover have "x / 2 ^ 53 \<le> x" using x by (simp add: field_simps)
  ultimately show ?thesis using x by linarith
qed

lemma rd_rel: "0 \<le> x \<Longrightarrow> \<bar>rd x - x\<bar> \<le> x / 2 ^ 53"
  using rd_error[of x] by simp

lemma toInt_int32: "toInt s = Inr n \<Longrightarrow> int32 n"
  by (auto simp: toInt_def int32_def split: option.splits if_splits)

text \<open>
  With a 32-bit seed the sum of \<open>$toInt\<close> and the seed is exact; with a seed of
  magnitude at most \<open>2 * 10^9\<close> the product of the hash is exact as well.
\<close>

lemma order_value_exact:
  "int32 n \<Longrightarrow> int32 seed \<Longrightarrow> num_value (mongo_add (Exact n) (jsNumber seed)) = n + seed"
  by (simp add: jsNumber_def int32_def int64_def)


section \<open>The seed\<close>

lemma seedFor_given: "s \<noteq> 0 \<Longrightarrow> seedFor (Some s) now = s"
  by (simp add: seedFor_def js_or_def)

lemma seedFor_absent: "seedFor None now = now div 60000"
  by (simp add: seedFor_def js_or_def seedInterval_def seedUpdateIntervalMinutes_def)

lemma seedFor_same_window:
  "t1 div 60000 = t2 div 60000 \<Longrightarrow> seedFor randomSeed t1 = seedFor randomSeed t2"
  by (simp add: seedFor_def js_or_def seedInterval_def seedUpdateIntervalMinutes_def)

text \<open>
  C5. An explicit seed is used unchanged, also the seed 0; without one the seed is
  \<open>floor(now / 60000)\<close>. Here the two methods are called with the explicit seed 0 at
  \<open>now = 120000\<close>: the seed they use and return is 2, the number of the time window,
  and not 0.
\<close>

theorem seed_zero_replaced:
  "seedFor (Some 0) 120000 = 2
   \<and> map_sum id r_seed (getOffersHashRoundRobin [] 120000 ''RPG'' 1 None (Some 0))
       = Inr (Some 2)
   \<and> map_sum id r_seed (getOffersTrueRoundRobin [] 120000 ''RPG'' 1 None (Some 0))
       = Inr (Some 2)"
  by (simp add: seedFor_def js_or_def seedInterval_def seedUpdateIntervalMinutes_def
      getOffersHashRoundRobin_def getOffersTrueRoundRobin_def trueAggregate_def
      defaultPageSize_def hashOrdered_def match_def sort_by_def)

section \<open>True round-robin\<close>

lemma order_le_total: "order_le a b \<or> order_le b a"
  by (auto simp: order_le_def)

lemma order_le_trans: "order_le a b \<Longrightarrow> order_le b c \<Longrightarrow> order_le a c"
  by (auto simp: order_le_def)

lemma sellerOrderOf_Inr:
  assumes "sellerOrderOf seed k = Inr v" and "int32 seed"
  shows "\<exists>n. toInt (drop 7 k) = Inr n \<and> v = mongo_mod (n + seed) 1000"
proof -
  from assms(1) obtain n where n: "toInt (drop 7 k) = Inr n"
    and v: "v = mongo_mod (num_value (mongo_add (Exact n) (jsNumber seed))) 1000"
    by (auto simp: sellerOrderOf_def substr_def split: sum.splits)
  from n have "int32 n" by (rule toInt_int32)
  with v assms(2) have "v = mongo_mod (n + seed) 1000" by (simp add: order_value_exact)
  with n show ?thesis by blast
qed

lemma sellerOrderOf_succeeds:
  "toInt (drop 7 k) = Inr n \<Longrightarrow> \<exists>v. sellerOrderOf seed k = Inr v"
  by (simp add: sellerOrderOf_def substr_def)

lemma groupStage_succeeds:
  "(\<forall>k\<in>set ks. \<exists>v. sellerOrderOf seed k = Inr v) \<Longrightarrow>
   \<exists>gs. groupStage seed docs ks = Inr gs"
  by (induction ks) auto

lemma trueAggregate_succeeds:
  assumes "\<forall>d\<in>set (match cat store). \<exists>n. toInt (drop 7 (sellerId d)) = Inr n"
  shows "\<exists>gs. trueAggregate seed cat store = Inr gs"
proof -
  define docs where "docs = sort_by quality_le (match cat store)"
  have "\<forall>k\<in>set (groupKeys docs). \<exists>v. sellerOrderOf seed k = Inr v"
  proof
    fix k assume "k \<in> set (groupKeys docs)"
    then obtain d where "d \<in> set (match cat store)" and "k = sellerId d"
      by (auto simp: set_groupKeys docs_def set_sort_by)
    with assms obtain n where "toInt (drop 7 k) = Inr n" by blast
    then show "\<exists>v. sellerOrderOf seed k = Inr v" by (rule sellerOrderOf_succeeds)
  qed
  then obtain gs where "groupStage seed docs (groupKeys docs) = Inr gs"
    using groupStage_succeeds by blast
  then show ?thesis by (simp add: trueAggregate_def Let_def docs_def)
qed

lemma trueAggregate_Inr:
  assumes "trueAggregate seed cat store = Inr gs"
  shows "sorted_wrt (\<lambda>a b. sellerOrder a \<le> sellerOrder b) gs"
    and "\<forall>g\<in>set gs. sellerOrderOf seed (group_id g) = Inr (sellerOrder g)"
    and "\<forall>g\<in>set gs. offers g \<noteq> []
              \<and> offers g = filter (\<lambda>d. sellerId d = group_id g) (sort_by quality_le (match cat store))"
    and "distinct (map group_id gs)"
    and "set (map group_id gs) = sellerId ` set (match cat store)"
    and "mset (concat (map offers gs)) = mset (match cat store)"
proof -
  define docs where "docs = sort_by quality_le (match cat store)"
  from assms obtain gs0 where
    gs0: "groupStage seed docs (groupKeys docs) = Inr gs0" and gs: "gs = sort_by order_le gs0"
    by (auto simp: trueAggregate_def Let_def docs_def split: sum.splits)
  note st = groupStage_Inr[OF gs0]
  have set_gs: "set gs = set gs0" by (simp add: gs set_sort_by)
  have mset_gs: "mset gs = mset gs0" by (simp add: gs mset_sort_by)
  have "sorted_wrt order_le gs"
    unfolding gs by (rule sorted_sort_by[OF order_le_total order_le_trans])
  then show "sorted_wrt (\<lambda>a b. sellerOrder a \<le> sellerOrder b) gs"
    by (simp add: order_le_def[abs_def])
  show "\<forall>g\<in>set gs. sellerOrderOf seed (group_id g) = Inr (sellerOrder g)"
    using st set_gs by blast
  have keys: "mset (map group_id gs) = mset (groupKeys docs)"
    using st mset_gs by (metis mset_map)
  then show "distinct (map group_id gs)"
    using distinct_groupKeys[of docs] by (metis mset_eq_imp_distinct_iff)
  have "set (map group_id gs) = set (groupKeys docs)"
    using keys by (metis set_mset_mset)
  then show ids: "set (map group_id gs) = sellerId ` set (match cat store)"
    by (simp add: set_groupKeys docs_def set_sort_by)
  show "\<forall>g\<in>set gs. offers g \<noteq> []
              \<and> offers g = filter (\<lambda>d. sellerId d = group_id g) (sort_by quality_le (match cat store))"
  proof
    fix g assume g: "g \<in> set gs"
    then have eq: "offers g = filter (\<lambda>d. sellerId d = group_id g) docs"
      using st set_gs by blast
    from g have "group_id g \<in> sellerId ` set docs"
      using ids by (auto simp: docs_def set_sort_by)
    then have "filter (\<lambda>d. sellerId d = group_id g) docs \<noteq> []"
      by (auto simp: filter_empty_conv)
    with eq show "offers g \<noteq> []
              \<and> offers g = filter (\<lambda>d. sellerId d = group_id g) (sort_by quality_le (match cat store))"
      by (simp add: docs_def)
  qed
  have "mset (concat (map offers gs)) = mset (concat (map offers gs0))"
    using mset_gs by (rule mset_concat_map_cong)
  also have "\<dots> = mset docs"
    using st mset_groups[of docs] by simp
  finally show "mset (concat (map offers gs)) = mset (match cat store)"
    by (simp add: docs_def mset_sort_by)
qed

lemma roundRobin_first_round:
  assumes "\<forall>g\<in>set gs. offers g \<noteq> []
              \<and> offers g = filter (\<lambda>d. sellerId d = group_id g) docs"
  shows "map sellerId (take (length gs) (roundRobin gs)) = map group_id gs"
proof -
  have "take (length (map offers gs)) (interleave (map offers gs)) = map hd (map offers gs)"
    by (rule first_round) (use assms in auto)
  then have "take (length gs) (roundRobin gs) = map (\<lambda>g. hd (offers g)) gs"
    by (simp add: roundRobin_interleave comp_def)
  moreover have "sellerId (hd (offers g)) = group_id g" if "g \<in> set gs" for g
  proof -
    from that assms have "hd (offers g) \<in> set (filter (\<lambda>d. sellerId d = group_id g) docs)"
      by (metis hd_in_set)
    then show ?thesis by simp
  qed
  ultimately show ?thesis by simp
qed


lemma sample_sorted: "sort_by quality_le (match ''RPG'' sampleOffers) =
  [ mkOffer ''offer_9'' ''RPG'' ''seller_3'' 5 900,
    mkOffer ''offer_5'' ''RPG'' ''seller_1'' 5 500,
    mkOffer ''offer_1'' ''RPG'' ''seller_1'' (9 / 2) 100,
    mkOffer ''offer_10'' ''RPG'' ''seller_1'' 4 1000,
    mkOffer ''offer_2'' ''RPG'' ''seller_2'' 4 200,
    mkOffer ''offer_4'' ''RPG'' ''seller_3'' (7 / 2) 400,
    mkOffer ''offer_3'' ''RPG'' ''seller_1'' 3 300,
    mkOffer ''offer_7'' ''RPG'' ''seller_1'' (5 / 2) 700,
    mkOffer ''offer_8'' ''RPG'' ''seller_2'' (3 / 2) 800 ]"
  by (simp add: sampleOffers_def mkOffer_def match_def sort_by_def quality_le_def)

lemma sample_count: "countDocuments ''RPG'' sampleOffers = 9"
  by (simp add: sampleOffers_def mkOffer_def countDocuments_def)

lemma sample_sellerOrder:
  "sellerOrderOf 998 ''seller_1'' = Inr 999"
  "sellerOrderOf 998 ''seller_2'' = Inr 0"
  "sellerOrderOf 998 ''seller_3'' = Inr 1"
  by (simp_all add: sellerOrderOf_def toInt_def parse_signed_def parse_digits_def is_digit_def
      digit_value_def substr_def mongo_mod_def jsNumber_def int32_def int64_def)

lemma sample_groups: "trueAggregate 998 ''RPG'' sampleOffers = Inr sampleGroups"
  unfolding trueAggregate_def Let_def sample_sorted
  by (simp add: mkOffer_def sample_sellerOrder sort_by_def order_le_def sampleGroups_def)

lemma sample_roundRobin: "roundRobin sampleGroups = sampleInterleaved"
  by (simp add: sampleGroups_def sampleInterleaved_def roundRobin_def js_Math_max_def
      roundLoop.simps js_less_def js_index_def)

lemma sample_true_page: "getOffersTrueRoundRobin sampleOffers 0 ''RPG'' 1 (Some 3) (Some 998) = Inr
  \<lparr> r_offers = take 3 sampleInterleaved,
     r_pagination = \<lparr> p_page = 1, p_limit = 3, p_total = 9, p_totalPages = 3,
                      p_hasNextPage = True, p_hasPrevPage = False \<rparr>,
     r_seed = Some 998, r_maxPerSeller = None,
     r_method = ''True Round-Robin (JavaScript)'' \<rparr>"
  unfolding getOffersTrueRoundRobin_def Let_def
  by (simp add: seedFor_def js_or_def sample_groups sample_roundRobin sample_count js_slice_def
      paginationOf_def js_ceil_div_def sampleInterleaved_def)


lemma sample_convertible:
  "\<forall>d\<in>set (match ''RPG'' sampleOffers). \<exists>n. toInt (drop 7 (sellerId d)) = Inr n"
  by (simp add: sampleOffers_def mkOffer_def match_def toInt_def parse_signed_def
      parse_digits_def is_digit_def digit_value_def)

lemma sample_conversions:
  "map (\<lambda>d. toInt (drop 7 (sellerId d))) (match ''RPG'' sampleOffers)
       = [Inr 1, Inr 2, Inr 1, Inr 3, Inr 1, Inr 1, Inr 2, Inr 3, Inr 1]"
  by (simp add: sampleOffers_def mkOffer_def match_def toInt_def parse_signed_def
      parse_digits_def is_digit_def digit_value_def)

text \<open>
  C1, as amended. When every seller identifier of the category spells a 32-bit integer
  from index 7 on (as \<open>seller_12\<close> does) and the seed is a 32-bit integer, the true
  round-robin returns a result; its seller groups are in ascending order of the key
  \<open>(n + seed) mod 1000\<close>, where \<open>n\<close> is that integer; every seller of the category has
  exactly one group, which holds that seller's offers and is not empty; the full
  sequence is the interleaving by rounds (round \<open>r\<close> takes the element at index \<open>r\<close> of
  every group that has one, in group order, up to the largest group size); and the page
  is the slice \<open>[skip, skip + limit)\<close> of that sequence. The first round holds one offer
  of each seller, in group order: with three sellers the first three elements come from
  three different sellers.
\<close>

theorem trueRoundRobin_interleaves:
  assumes conv: "\<forall>d\<in>set (match cat store). \<exists>n. toInt (drop 7 (sellerId d)) = Inr n"
    and seed: "int32 (seedFor randomSeed now)"
  shows "\<exists>res gs. getOffersTrueRoundRobin store now cat pg lm randomSeed = Inr res
      \<and> trueAggregate (seedFor randomSeed now) cat store = Inr gs
      \<and> sorted_wrt (\<lambda>a b. sellerOrder a \<le> sellerOrder b) gs
      \<and> (\<forall>g\<in>set gs. \<exists>n. toInt (drop 7 (group_id g)) = Inr n
              \<and> sellerOrder g = mongo_mod (n + seedFor randomSeed now) 1000)
      \<and> (\<forall>g\<in>set gs. offers g \<noteq> []
              \<and> offers g = filter (\<lambda>d. sellerId d = group_id g) (sort_by quality_le (match cat store)))
      \<and> distinct (map group_id gs)
      \<and> set (map group_id gs) = sellerId ` set (match cat store)
      \<and> roundRobin gs = interleave (map offers gs)
      \<and> map sellerId (take (length gs) (roundRobin gs)) = map group_id gs
      \<and> r_offers res = js_slice (roundRobin gs) ((pg - 1) * js_or lm defaultPageSize)
            ((pg - 1) * js_or lm defaultPageSize + js_or lm defaultPageSize)
      \<and> (1 \<le> pg \<and> 0 < js_or lm defaultPageSize \<longrightarrow>
           r_offers res = take (nat (js_or lm defaultPageSize))
             (drop (nat ((pg - 1) * js_or lm defaultPageSize)) (roundRobin gs)))"
proof -
  from trueAggregate_succeeds[OF conv] obtain gs where
    agg: "trueAggregate (seedFor randomSeed now) cat store = Inr gs" by blast
  then obtain res where
    res: "getOffersTrueRoundRobin store now cat pg lm randomSeed = Inr res" and
    sl: "r_offers res = js_slice (roundRobin gs) ((pg - 1) * js_or lm defaultPageSize)
            ((pg - 1) * js_or lm defaultPageSize + js_or lm defaultPageSize)"
    by (simp add: getOffersTrueRoundRobin_def Let_def)
  note a = trueAggregate_Inr[OF agg]
  have key: "\<forall>g\<in>set gs. \<exists>n. toInt (drop 7 (group_id g)) = Inr n
              \<and> sellerOrder g = mongo_mod (n + seedFor randomSeed now) 1000"
    using a(2) seed sellerOrderOf_Inr by blast
  have first: "map sellerId (take (length gs) (roundRobin gs)) = map group_id gs"
    using a(3) by (rule roundRobin_first_round)
  have valid: "r_offers res = take (nat (js_or lm defaultPageSize))
             (drop (nat ((pg - 1) * js_or lm defaultPageSize)) (roundRobin gs))"
    if "1 \<le> pg \<and> 0 < js_or lm defaultPageSize"
    using that sl by (simp add: js_slice_valid)
  from res agg a(1) key a(3,4,5) roundRobin_interleave[of gs] first sl valid show ?thesis
    by blast
qed

theorem trueRoundRobin_interleaves_witness:
  "map (\<lambda>d. toInt (drop 7 (sellerId d))) (match ''RPG'' sampleOffers)
       = [Inr 1, Inr 2, Inr 1, Inr 3, Inr 1, Inr 1, Inr 2, Inr 3, Inr 1]
   \<and> int32 (seedFor (Some 998) 0)
   \<and> getOffersTrueRoundRobin sampleOffers 0 ''RPG'' 1 (Some 3) (Some 998) = Inr
     \<lparr> r_offers = take 3 sampleInterleaved,
       r_pagination = \<lparr> p_page = 1, p_limit = 3, p_total = 9, p_totalPages = 3,
                        p_hasNextPage = True, p_hasPrevPage = False \<rparr>,
       r_seed = Some 998, r_maxPerSeller = None,
       r_method = ''True Round-Robin (JavaScript)'' \<rparr>
   \<and> map sellerOrder sampleGroups = [0, 1, 999]
   \<and> roundRobin sampleGroups = interleave (map offers sampleGroups)
   \<and> map sellerId (take 3 (roundRobin sampleGroups)) = [''seller_2'', ''seller_3'', ''seller_1'']
   \<and> map length (map offers sampleGroups) = [2, 2, 5]"
proof -
  have s: "seedFor (Some 998) 0 = 998" by (simp add: seedFor_def js_or_def)
  have i: "int32 (seedFor (Some 998) 0)" by (simp add: s int32_def)
  from trueRoundRobin_interleaves[OF sample_convertible i, of 1 "Some 3"] obtain res gs where
    gs: "trueAggregate (seedFor (Some 998) 0) ''RPG'' sampleOffers = Inr gs" and
    il: "roundRobin gs = interleave (map offers gs)" and
    fr: "map sellerId (take (length gs) (roundRobin gs)) = map group_id gs"
    by blast
  from gs sample_groups s have eq: "gs = sampleGroups" by simp
  have len: "length sampleGroups = 3" and ids: "map group_id sampleGroups = [''seller_2'', ''seller_3'', ''seller_1'']"
    by (simp_all add: sampleGroups_def)
  have "map sellerId (take 3 (roundRobin sampleGroups)) = [''seller_2'', ''seller_3'', ''seller_1'']"
    using fr unfolding eq len ids .
  moreover have "roundRobin sampleGroups = interleave (map offers sampleGroups)"
    using il unfolding eq .
  moreover have "map sellerOrder sampleGroups = [0, 1, 999]"
    and "map length (map offers sampleGroups) = [2, 2, 5]"
    by (simp_all add: sampleGroups_def)
  ultimately show ?thesis using sample_true_page sample_conversions i by simp
qed

text \<open>
  C1, as stated, fails for the sellers \<open>seller_5\<close> and \<open>seller12\<close> with seed 1: the
  numeric suffixes 5 and 12 give the keys 6 and 13, so seller_5 would come first, but
  the code takes the characters from index 7 on, \<open>5\<close> and \<open>2\<close>, computes the keys 6 and
  3, and returns the offer of seller12 first.
\<close>

theorem numeric_suffix_counterexample:
  "claimedSellerOrder 1 ''seller_5'' = Some 6
   \<and> claimedSellerOrder 1 ''seller12'' = Some 13
   \<and> sellerOrderOf 1 ''seller_5'' = Inr 6
   \<and> sellerOrderOf 1 ''seller12'' = Inr 3
   \<and> map_sum id (map sellerId \<circ> r_offers)
        (getOffersTrueRoundRobin suffixSample 0 ''RPG'' 1 None (Some 1))
       = Inr [''seller12'', ''seller_5'']"
proof -
  have c: "claimedSellerOrder 1 ''seller_5'' = Some 6" "claimedSellerOrder 1 ''seller12'' = Some 13"
    by (simp_all add: claimedSellerOrder_def numericSuffix_def parse_digits_def is_digit_def
        digit_value_def)
  have k: "sellerOrderOf 1 ''seller_5'' = Inr 6" "sellerOrderOf 1 ''seller12'' = Inr 3"
    by (simp_all add: sellerOrderOf_def toInt_def parse_signed_def parse_digits_def is_digit_def
        digit_value_def substr_def mongo_mod_def jsNumber_def int32_def int64_def)
  have g: "trueAggregate 1 ''RPG'' suffixSample = Inr
      [ \<lparr> group_id = ''seller12'',
          offers = [mkOffer ''offer_2'' ''RPG'' ''seller12'' 4 200], sellerOrder = 3 \<rparr>,
        \<lparr> group_id = ''seller_5'',
          offers = [mkOffer ''offer_1'' ''RPG'' ''seller_5'' 5 100], sellerOrder = 6 \<rparr> ]"
    by (simp add: trueAggregate_def Let_def suffixSample_def mkOffer_def match_def sort_by_def
        quality_le_def order_le_def k)
  have r: "map_sum id (map sellerId \<circ> r_offers)
        (getOffersTrueRoundRobin suffixSample 0 ''RPG'' 1 None (Some 1))
       = Inr [''seller12'', ''seller_5'']"
    by (simp add: getOffersTrueRoundRobin_def Let_def seedFor_def js_or_def defaultPageSize_def g
        roundRobin_def js_Math_max_def roundLoop.simps js_less_def js_index_def js_slice_def
        mkOffer_def)
  from c k r show ?thesis by simp
qed

text \<open>
  The identifiers \<open>A\<close>, \<open>B\<close> and \<open>C\<close> are shorter than 8 characters: \<open>$substr\<close> from
  index 7 is empty, \<open>$toInt\<close> fails on it, and the method throws. The hash-based method
  guards this case with its length test; this method has no such test.
\<close>

lemma short_identifier_throws:
  "getOffersTrueRoundRobin [mkOffer ''offer_1'' ''RPG'' ''A'' 5 100] 0 ''RPG'' 1 None (Some 1)
     = Inl (ConversionFailure [])"
  by (simp add: getOffersTrueRoundRobin_def Let_def seedFor_def js_or_def trueAggregate_def
      mkOffer_def match_def sort_by_def sellerOrderOf_def substr_def toInt_def parse_signed_def)

text \<open>
  C10. When the true round-robin returns a result, the interleaved sequence before
  pagination is a permutation of the offers of the category, so its length is the count
  reported as \<open>pagination.total\<close>; a category without offers gives the empty sequence
  and a result, not an error.
\<close>

theorem trueRoundRobin_permutation:
  "(getOffersTrueRoundRobin store now cat pg lm randomSeed = Inr res \<longrightarrow>
      (\<exists>gs. trueAggregate (seedFor randomSeed now) cat store = Inr gs
         \<and> mset (roundRobin gs) = mset (match cat store)
         \<and> int (length (roundRobin gs)) = p_total (r_pagination res)
         \<and> p_total (r_pagination res) = countDocuments cat store))
   \<and> (match cat store = [] \<longrightarrow>
      (\<exists>res'. getOffersTrueRoundRobin store now cat pg lm randomSeed = Inr res'
         \<and> trueAggregate (seedFor randomSeed now) cat store = Inr []
         \<and> roundRobin [] = []
         \<and> r_offers res' = []
         \<and> p_total (r_pagination res') = 0))"
proof
  show "getOffersTrueRoundRobin store now cat pg lm randomSeed = Inr res \<longrightarrow>
      (\<exists>gs. trueAggregate (seedFor randomSeed now) cat store = Inr gs
         \<and> mset (roundRobin gs) = mset (match cat store)
         \<and> int (length (roundRobin gs)) = p_total (r_pagination res)
         \<and> p_total (r_pagination res) = countDocuments cat store)"
  proof
    assume r: "getOffersTrueRoundRobin store now cat pg lm randomSeed = Inr res"
    then obtain gs where
      agg: "trueAggregate (seedFor randomSeed now) cat store = Inr gs" and
      tot: "p_total (r_pagination res) = countDocuments cat store"
      by (auto simp: getOffersTrueRoundRobin_def Let_def paginationOf_def split: sum.splits)
    have m: "mset (roundRobin gs) = mset (match cat store)"
      using trueAggregate_Inr(6)[OF agg] by (simp add: roundRobin_interleave mset_interleave)
    then have "length (roundRobin gs) = length (match cat store)"
      by (metis size_mset)
    then have "int (length (roundRobin gs)) = countDocuments cat store"
      by (simp add: countDocuments_def match_def)
    with agg m tot show "\<exists>gs. trueAggregate (seedFor randomSeed now) cat store = Inr gs
         \<and> mset (roundRobin gs) = mset (match cat store)
         \<and> int (length (roundRobin gs)) = p_total (r_pagination res)
         \<and> p_total (r_pagination res) = countDocuments cat store"
      by auto
  qed
  show "match cat store = [] \<longrightarrow>
      (\<exists>res'. getOffersTrueRoundRobin store now cat pg lm randomSeed = Inr res'
         \<and> trueAggregate (seedFor randomSeed now) cat store = Inr []
         \<and> roundRobin [] = []
         \<and> r_offers res' = []
         \<and> p_total (r_pagination res') = 0)"
  proof
    assume e: "match cat store = []"
    then have agg: "trueAggregate (seedFor randomSeed now) cat store = Inr []"
      by (simp add: trueAggregate_def sort_by_def)
    have rr: "roundRobin [] = []"
      by (simp add: roundRobin_def js_Math_max_def roundLoop_None)
    have cnt: "countDocuments cat store = 0"
      using e by (simp add: countDocuments_def match_def)
    show "\<exists>res'. getOffersTrueRoundRobin store now cat pg lm randomSeed = Inr res'
         \<and> trueAggregate (seedFor randomSeed now) cat store = Inr []
         \<and> roundRobin [] = []
         \<and> r_offers res' = []
         \<and> p_total (r_pagination res') = 0"
      using agg rr cnt
      by (simp add: getOffersTrueRoundRobin_def Let_def js_slice_def paginationOf_def)
  qed
qed

theorem trueRoundRobin_permutation_witness:
  "getOffersTrueRoundRobin sampleOffers 0 ''RPG'' 1 (Some 3) (Some 998) = Inr
     \<lparr> r_offers = take 3 sampleInterleaved,
       r_pagination = \<lparr> p_page = 1, p_limit = 3, p_total = 9, p_totalPages = 3,
                        p_hasNextPage = True, p_hasPrevPage = False \<rparr>,
       r_seed = Some 998, r_maxPerSeller = None,
       r_method = ''True Round-Robin (JavaScript)'' \<rparr>
   \<and> mset (roundRobin sampleGroups) = mset (match ''RPG'' sampleOffers)
   \<and> length (roundRobin sampleGroups) = 9
   \<and> match ''RPG'' [] = []
   \<and> map_sum id r_offers (getOffersTrueRoundRobin [] 0 ''RPG'' 1 None None) = Inr []
   \<and> map_sum id (p_total \<circ> r_pagination) (getOffersTrueRoundRobin [] 0 ''RPG'' 1 None None) = Inr 0"
proof -
  have m: "match ''RPG'' [] = []" by (simp add: match_def)
  have s: "seedFor (Some 998) 0 = 998" by (simp add: seedFor_def js_or_def)
  from trueRoundRobin_permutation[THEN conjunct1, rule_format, OF sample_true_page]
  obtain gs where
    gs: "trueAggregate (seedFor (Some 998) 0) ''RPG'' sampleOffers = Inr gs" and
    p: "mset (roundRobin gs) = mset (match ''RPG'' sampleOffers)" and
    l: "int (length (roundRobin gs)) = 9"
    by auto
  from gs sample_groups s have eq: "gs = sampleGroups" by simp
  from trueRoundRobin_permutation[THEN conjunct2, rule_format, OF m, of 0 1 None None]
  obtain res' where
    "getOffersTrueRoundRobin [] 0 ''RPG'' 1 None None = Inr res'"
    "r_offers res' = []" "p_total (r_pagination res') = 0"
    by blast
  with p l m sample_true_page show ?thesis unfolding eq by simp
qed

section \<open>Hash round-robin\<close>














lemma sample_hashes:
  "sellerHashOf 123 ''seller_1'' = Inr 9840"
  "sellerHashOf 123 ''seller_2'' = Inr 0"
  "sellerHashOf 123 ''shop'' = Inr 9840"
  "sellerHashOf 1 ''seller_1'' = Inr 76"
  "sellerHashOf 1 ''seller_2'' = Inr 114"
  "sellerHashOf 1 ''shop'' = Inr 76"
  by (simp_all add: sellerHashOf_def sellerNumber_def strLenCP_def substr_def toInt_def
      parse_signed_def parse_digits_def is_digit_def digit_value_def mongo_mod_def
      jsNumber_def int32_def int64_def)




lemma sample_hashOrdered_123: "hashOrdered 123 ''RPG'' hashSample = Inr
  [ mkHashed ''offer_2'' ''RPG'' ''seller_2'' 4 100 0 123,
    mkHashed ''offer_3'' ''RPG'' ''shop'' 5 50 9840 123,
    mkHashed ''offer_1'' ''RPG'' ''seller_1'' 4 100 9840 123 ]"
  by (simp add: hashOrdered_def hashSample_def mkOffer_def mkHashed_def match_def sample_hashes
      sort_by_def hash_le_def quality_le_def)

lemma sample_hashOrdered_1: "hashOrdered 1 ''RPG'' hashSample = Inr
  [ mkHashed ''offer_3'' ''RPG'' ''shop'' 5 50 76 1,
    mkHashed ''offer_1'' ''RPG'' ''seller_1'' 4 100 76 1,
    mkHashed ''offer_2'' ''RPG'' ''seller_2'' 4 100 114 1 ]"
  by (simp add: hashOrdered_def hashSample_def mkOffer_def mkHashed_def match_def sample_hashes
      sort_by_def hash_le_def quality_le_def)







text \<open>
  An identifier of 8 or more characters whose characters from index 7 on are no integer
  passes the length test and makes \<open>$toInt\<close> fail: the method throws.
\<close>

lemma unparsable_identifier_throws:
  "getOffersHashRoundRobin [mkOffer ''offer_1'' ''RPG'' ''merchant'' 5 100] 0 ''RPG'' 1 None (Some 42)
     = Inl (ConversionFailure ''t'')"
  by (simp add: sellerHashOf_def sellerNumber_def strLenCP_def substr_def
      toInt_def parse_signed_def parse_digits_def is_digit_def getOffersHashRoundRobin_def
      js_or_def defaultPageSize_def seedFor_def hashOrdered_def match_def mkOffer_def)

lemma hash_same_seed_same_result:
  "seedFor rs1 t1 = seedFor rs2 t2 \<Longrightarrow>
   getOffersHashRoundRobin store t1 cat pg lm rs1 = getOffersHashRoundRobin store t2 cat pg lm rs2"
  by (simp add: getOffersHashRoundRobin_def)

lemma hash_given_seed_ignores_clock:
  "s \<noteq> 0 \<Longrightarrow>
   getOffersHashRoundRobin store t1 cat pg lm (Some s)
     = getOffersHashRoundRobin store t2 cat pg lm (Some s)"
  by (rule hash_same_seed_same_result) (simp add: seedFor_given)

text \<open>
  C9. Two calls with the same category, seed, page and page size on the same collection
  return the same sequence. Here the explicit seed is 0 and the two calls fall into
  different time windows (\<open>now = 60000\<close> and \<open>now = 7380000\<close>): the sequences differ.
\<close>

theorem hash_seed_zero_follows_clock:
  "map_sum id (map offer_id \<circ> r_offers)
      (getOffersHashRoundRobin hashSample 60000 ''RPG'' 1 None (Some 0))
     = Inr [''offer_3'', ''offer_1'', ''offer_2'']
   \<and> map_sum id (map offer_id \<circ> r_offers)
      (getOffersHashRoundRobin hashSample 7380000 ''RPG'' 1 None (Some 0))
     = Inr [''offer_2'', ''offer_3'', ''offer_1'']"
  by (simp add: getOffersHashRoundRobin_def Let_def js_or_def seedFor_def seedInterval_def
      seedUpdateIntervalMinutes_def defaultPageSize_def sample_hashOrdered_123
      sample_hashOrdered_1 skip_limit_def mkHashed_def)

section \<open>Currency conversion round trip\<close>

lemma round_half_error: "\<bar>real_of_int \<lfloor>y + 1 / 2\<rfloor> - y\<bar> \<le> 1 / 2"
  for y :: real
  by linarith

lemma scaled_round_error: "\<bar>real_of_int \<lfloor>y * 10000 + 1 / 2\<rfloor> / 10000 - y\<bar> \<le> 1 / 20000"
  for y :: real
proof -
  have "real_of_int \<lfloor>y * 10000 + 1 / 2\<rfloor> \<le> y * 10000 + 1 / 2"
    and "y * 10000 + 1 / 2 < real_of_int \<lfloor>y * 10000 + 1 / 2\<rfloor> + 1"
    by linarith+
  then show ?thesis by linarith
qed

lemma toFixed4_error: "\<bar>toFixed4 x - x\<bar> \<le> 1 / 20000"
proof (cases "x < 0")
  case True
  have "\<bar>real_of_int \<lfloor>(- x) * 10000 + 1 / 2\<rfloor> / 10000 - (- x)\<bar> \<le> 1 / 20000"
    by (rule scaled_round_error)
  then have "\<bar>- (real_of_int \<lfloor>- x * 10000 + 1 / 2\<rfloor> / 10000) - x\<bar> \<le> 1 / 20000"
    by linarith
  with True show ?thesis by (simp only: toFixed4_def if_True)
next
  case False
  with scaled_round_error[of x] show ?thesis by (simp only: toFixed4_def if_False)
qed


lemma toFixed4_nonneg: "0 \<le> x \<Longrightarrow> 0 \<le> toFixed4 x"
proof -
  assume x: "0 \<le> x"
  then have "0 \<le> x * 10000 + 1 / 2" by simp
  then have "0 \<le> \<lfloor>x * 10000 + 1 / 2\<rfloor>" by (simp only: zero_le_floor of_int_0)
  with x show ?thesis by (simp add: toFixed4_def)
qed

lemma round_trip_bound:
  assumes a: "0 \<le> a" and r: "0 < r"
  defines "u \<equiv> rd (toFixed4 (rd (a * r)))"
  defines "b \<equiv> rd (toFixed4 (rd (u * rd (1 / r))))"
  shows "\<bar>b - a\<bar> \<le> 1 / 20000 + 1 / (20000 * r) + (a + 1 / 20000 + 1 / (20000 * r)) / 2 ^ 48"
proof -
  define c :: real where "c = 1 / 2 ^ 53"
  define x where "x = a * r"
  define s where "s = 1 / r"
  define p where "p = rd x"
  define t where "t = toFixed4 p"
  define q where "q = rd s"
  define v where "v = rd (u * q)"
  define w where "w = toFixed4 v"
  define S where "S = s / 20000"
  have c0: "0 \<le> c" and c1: "c \<le> 1" by (simp_all add: c_def)
  have dc: "y / 2 ^ 53 = y * c" for y by (simp add: c_def)
  have u_def': "u = rd t" by (simp add: u_def t_def p_def x_def)
  have b_def': "b = rd w" by (simp add: b_def w_def v_def q_def s_def)
  have x0: "0 \<le> x" using a r by (simp add: x_def)
  have s0: "0 \<le> s" using r by (simp add: s_def)
  have S0: "0 \<le> S" using s0 by (simp add: S_def)
  have xs: "x * s = a" using r by (simp add: x_def s_def)
  have f1: "\<bar>p - x\<bar> \<le> x * c" unfolding p_def dc[symmetric] by (rule rd_rel[OF x0])
  have p0: "0 \<le> p" unfolding p_def by (rule rd_nonneg[OF x0])
  have f2: "\<bar>t - p\<bar> \<le> 1 / 20000" unfolding t_def by (rule toFixed4_error)
  have t0: "0 \<le> t" unfolding t_def by (rule toFixed4_nonneg[OF p0])
  have f3: "\<bar>u - t\<bar> \<le> t * c" unfolding u_def' dc[symmetric] by (rule rd_rel[OF t0])
  have u0: "0 \<le> u" unfolding u_def' by (rule rd_nonneg[OF t0])
  have f4: "\<bar>q - s\<bar> \<le> s * c" unfolding q_def dc[symmetric] by (rule rd_rel[OF s0])
  have q0: "0 \<le> q" unfolding q_def by (rule rd_nonneg[OF s0])
  have uq0: "0 \<le> u * q" using u0 q0 by (rule mult_nonneg_nonneg)
  have f5: "\<bar>v - u * q\<bar> \<le> (u * q) * c" unfolding v_def dc[symmetric] by (rule rd_rel[OF uq0])
  have v0: "0 \<le> v" unfolding v_def by (rule rd_nonneg[OF uq0])
  have f6: "\<bar>w - v\<bar> \<le> 1 / 20000" unfolding w_def by (rule toFixed4_error)
  have w0: "0 \<le> w" unfolding w_def by (rule toFixed4_nonneg[OF v0])
  have f7: "\<bar>b - w\<bar> \<le> w * c" unfolding b_def' dc[symmetric] by (rule rd_rel[OF w0])
  have mono: "y * c \<le> z * c" if "y \<le> z" for y z
    using that c0 by (rule mult_right_mono)
  have le1: "y * c \<le> y" if "0 \<le> y" for y
    using mult_left_mono[OF c1 that] by simp
  have p_le: "p \<le> 2 * x" using f1 le1[OF x0] by linarith
  have t_le: "t \<le> 2 * x + 1 / 20000" using f2 p_le by linarith
  have tc: "t * c \<le> 2 * (x * c) + c / 20000"
    using mono[OF t_le] by (simp add: algebra_simps)
  have ux: "\<bar>u - x\<bar> \<le> 1 / 20000 + (3 * (x * c) + c / 20000)"
    using f1 f2 f3 tc by linarith
  have xc: "x * c \<le> x" by (rule le1[OF x0])
  have u_le: "u \<le> 4 * x + 2 / 20000" using ux xc c1 by linarith
  have us_le: "u * s \<le> 4 * a + 2 * S"
  proof -
    have "u * s \<le> (4 * x + 2 / 20000) * s" using u_le s0 by (rule mult_right_mono)
    also have "\<dots> = 4 * (x * s) + 2 * S" by (simp add: algebra_simps S_def)
    finally show ?thesis by (simp only: xs)
  qed
  have us0: "0 \<le> u * s" using u0 s0 by (rule mult_nonneg_nonneg)
  have uq_us: "\<bar>u * q - u * s\<bar> \<le> (u * s) * c"
  proof -
    have "\<bar>u * q - u * s\<bar> = u * \<bar>q - s\<bar>"
      using u0 by (simp add: right_diff_distrib[symmetric] abs_mult)
    also have "\<dots> \<le> u * (s * c)" using f4 u0 by (rule mult_left_mono)
    finally show ?thesis by (simp add: mult.assoc)
  qed
  have us_a: "\<bar>u * s - a\<bar> \<le> S + (3 * (a * c) + S * c)"
  proof -
    have "(u - x) * s = u * s - x * s" by (simp add: algebra_simps)
    then have "u * s - a = (u - x) * s" by (simp only: xs)
    then have "\<bar>u * s - a\<bar> = \<bar>u - x\<bar> * s" using s0 by (simp add: abs_mult)
    also have "\<dots> \<le> (1 / 20000 + (3 * (x * c) + c / 20000)) * s"
      using ux s0 by (rule mult_right_mono)
    also have "\<dots> = S + (3 * ((x * s) * c) + S * c)" by (simp add: algebra_simps S_def)
    finally show ?thesis by (simp only: xs)
  qed
  define U where "U = u * s"
  define Q where "Q = u * q"
  have U0: "0 \<le> U" using us0 by (simp add: U_def)
  have U_le: "U \<le> 4 * a + 2 * S" using us_le by (simp add: U_def)
  have QU: "\<bar>Q - U\<bar> \<le> U * c" using uq_us by (simp add: U_def Q_def)
  have Ua: "\<bar>U - a\<bar> \<le> S + (3 * (a * c) + S * c)" using us_a by (simp add: U_def)
  have vQ: "\<bar>v - Q\<bar> \<le> Q * c" using f5 by (simp add: Q_def)
  have Q0: "0 \<le> Q" using uq0 by (simp add: Q_def)
  have Uc: "U * c \<le> 4 * (a * c) + 2 * (S * c)"
    using mono[OF U_le] by (simp add: algebra_simps)
  have Q_le: "Q \<le> 8 * a + 4 * S" using QU le1[OF U0] U_le by linarith
  have Qa: "\<bar>Q - a\<bar> \<le> S + (7 * (a * c) + 3 * (S * c))" using QU Ua Uc by linarith
  have Qc: "Q * c \<le> 8 * (a * c) + 4 * (S * c)"
    using mono[OF Q_le] by (simp add: algebra_simps)
  have va: "\<bar>v - a\<bar> \<le> S + (15 * (a * c) + 7 * (S * c))" using vQ Qa Qc by linarith
  have v_le: "v \<le> 16 * a + 8 * S" using vQ le1[OF Q0] Q_le by linarith
  have w_le: "w \<le> 16 * a + 8 * S + 1 / 20000" using f6 v_le by linarith
  have wc: "w * c \<le> 16 * (a * c) + 8 * (S * c) + c / 20000"
    using mono[OF w_le] by (simp add: algebra_simps)
  have ba: "\<bar>b - a\<bar> \<le> 1 / 20000 + S + (31 * (a * c) + 15 * (S * c) + c / 20000)"
    using f7 f6 va wc by linarith
  have "31 * (a * c) + 15 * (S * c) + c / 20000 \<le> (a + 1 / 20000 + S) / 2 ^ 48"
    using a S0 by (simp add: c_def field_simps)
  with ba have "\<bar>b - a\<bar> \<le> 1 / 20000 + S + (a + 1 / 20000 + S) / 2 ^ 48" by linarith
  moreover have "S = 1 / (20000 * r)" by (simp add: S_def s_def)
  ultimately show ?thesis by simp
qed

lemma initialRates_lookup:
  "initialRates ''PHP'' = Some (rd (178 / 10000))"
  "initialRates ''IDR'' = Some (rd (635 / 10000000))"
  by (simp_all add: initialRates_def)

lemma php_rate_range: "1 / 10 ^ 8 \<le> rd (178 / 10000)" "rd (178 / 10000) \<le> 10 ^ 4"
  by code_simp+

lemma php_1000: "convertToUSD initialRates 1000 ''PHP'' = Inr (rd (178 / 10))"
  by code_simp

lemma php_1000_back: "convertFromUSD initialRates (rd (178 / 10)) ''PHP'' = Inr 1000"
  by code_simp

text \<open>
  The rounding of the product decides the fourth decimal: 100 IDR at the rate 0.0000635
  is 0.00635 in decimal arithmetic, which rounds to 0.0064, but the product of the two
  doubles lies below 0.00635 and \<open>toFixed(4)\<close> gives 0.0063. Likewise 1250.25 PHP at
  0.0178 is 22.25445 in decimal arithmetic and 22.2544 in the code.
\<close>

lemma idr_100: "convertToUSD initialRates 100 ''IDR'' = Inr (rd (63 / 10000))"
  by code_simp

lemma php_1250_25: "convertToUSD initialRates (125025 / 100) ''PHP'' = Inr (rd (222544 / 10000))"
  by code_simp

text \<open>
  C8, as amended. For a currency other than USD with a cached rate \<open>r\<close> between
  \<open>10^-8\<close> and \<open>10^4\<close> and an amount \<open>a\<close> between 0 and \<open>10^15\<close>, both conversions
  succeed; \<open>convertToUSD\<close> returns the double nearest to the four-decimal rounding of the
  double product \<open>a * r\<close>; and the round trip differs from \<open>a\<close> by at most
  \<open>0.00005 + 0.00005 / r + (a + 0.00005 + 0.00005 / r) / 2^48\<close>: the rounding of the USD
  amount is divided by the rate, and the five roundings to a double add a relative
  error. The ranges keep every intermediate value below \<open>2^1024\<close> and below the \<open>10^21\<close>
  of \<open>toFixed\<close>; a product below \<open>2^-1022\<close> is at most doubled by either rounding and
  \<open>toFixed(4)\<close> makes it 0.
\<close>

theorem conversion_round_trip:
  assumes c: "c \<noteq> ''USD''" and rate: "exchangeRatesCache c = Some r"
    and lo: "1 / 10 ^ 8 \<le> r" and hi: "r \<le> 10 ^ 4"
    and a0: "0 \<le> a" and a1: "a \<le> 10 ^ 15"
  shows "\<exists>u b. convertToUSD exchangeRatesCache a c = Inr u
        \<and> u = rd (toFixed4 (rd (a * r)))
        \<and> convertFromUSD exchangeRatesCache u c = Inr b
        \<and> b = rd (toFixed4 (rd (u * rd (1 / r))))
        \<and> \<bar>b - a\<bar> \<le> 1 / 20000 + 1 / (20000 * r) + (a + 1 / 20000 + 1 / (20000 * r)) / 2 ^ 48"
proof -
  have "(0::real) < 1 / 10 ^ 8" by simp
  with lo have pos: "0 < r" by linarith
  define u where "u = rd (toFixed4 (rd (a * r)))"
  define b where "b = rd (toFixed4 (rd (u * rd (1 / r))))"
  have tu: "convertToUSD exchangeRatesCache a c = Inr u"
    using c rate pos by (simp add: convertToUSD_def u_def)
  have fu: "convertFromUSD exchangeRatesCache u c = Inr b"
    using c rate pos by (simp add: convertFromUSD_def b_def)
  have "\<bar>b - a\<bar> \<le> 1 / 20000 + 1 / (20000 * r) + (a + 1 / 20000 + 1 / (20000 * r)) / 2 ^ 48"
    unfolding b_def u_def by (rule round_trip_bound[OF a0 pos])
  with tu fu u_def b_def show ?thesis by blast
qed

theorem conversion_round_trip_witness:
  "''PHP'' \<noteq> ''USD'' \<and> initialRates ''PHP'' = Some (rd (178 / 10000))
   \<and> 1 / 10 ^ 8 \<le> rd (178 / 10000) \<and> rd (178 / 10000) \<le> 10 ^ 4
   \<and> (0::real) \<le> 1000 \<and> (1000::real) \<le> 10 ^ 15
   \<and> convertToUSD initialRates 1000 ''PHP'' = Inr (rd (178 / 10))
   \<and> convertFromUSD initialRates (rd (178 / 10)) ''PHP'' = Inr 1000
   \<and> (\<exists>u b. convertToUSD initialRates 1000 ''PHP'' = Inr u
          \<and> convertFromUSD initialRates u ''PHP'' = Inr b
          \<and> \<bar>b - 1000\<bar> \<le> 1 / 20000 + 1 / (20000 * rd (178 / 10000))
                + (1000 + 1 / 20000 + 1 / (20000 * rd (178 / 10000))) / 2 ^ 48)"
proof -
  have c: "''PHP'' \<noteq> ''USD''" by simp
  have a0: "(0::real) \<le> 1000" by simp
  have a1: "(1000::real) \<le> 10 ^ 15" by simp
  from conversion_round_trip[where c = "''PHP''" and exchangeRatesCache = initialRates
      and r = "rd (178 / 10000)" and a = 1000,
      OF c initialRates_lookup(1) php_rate_range a0 a1]
  have "\<exists>u b. convertToUSD initialRates 1000 ''PHP'' = Inr u
          \<and> convertFromUSD initialRates u ''PHP'' = Inr b
          \<and> \<bar>b - 1000\<bar> \<le> 1 / 20000 + 1 / (20000 * rd (178 / 10000))
                + (1000 + 1 / 20000 + 1 / (20000 * rd (178 / 10000))) / 2 ^ 48"
    by blast
  with c initialRates_lookup(1) php_rate_range a0 a1 php_1000 php_1000_back
  show ?thesis by blast
qed

text \<open>
  C8, as stated, fails for 1 IDR at the rate 0.0000635: the USD amount rounds to 0.0001,
  which converts back to 1.5748, more than 0.0001 away from 1.
\<close>

theorem round_trip_counterexample:
  "''IDR'' \<noteq> ''USD''
   \<and> convertToUSD initialRates 1 ''IDR'' = Inr (rd (1 / 10000))
   \<and> convertFromUSD initialRates (rd (1 / 10000)) ''IDR'' = Inr (rd (15748 / 10000))
   \<and> \<not> \<bar>rd (15748 / 10000) - 1\<bar> \<le> 1 / 10000"
proof -
  have n: "''IDR'' \<noteq> ''USD''" by simp
  have t: "convertToUSD initialRates 1 ''IDR'' = Inr (rd (1 / 10000))" by code_simp
  have f: "convertFromUSD initialRates (rd (1 / 10000)) ''IDR'' = Inr (rd (15748 / 10000))"
    by code_simp
  have d: "\<not> \<bar>rd (15748 / 10000) - 1\<bar> \<le> 1 / 10000" by code_simp
  from n t f d show ?thesis by blast
qed

section \<open>Quota-based distribution\<close>

lemma set_mongo_slice: "set (mongo_slice xs n) \<subseteq> set xs"
  by (auto simp: mongo_slice_def dest: in_set_takeD in_set_dropD)

lemma length_mongo_slice: "length (mongo_slice xs n) \<le> nat \<bar>n\<bar>"
  by (auto simp: mongo_slice_def)

lemma mongo_slice_Nil: "mongo_slice [] n = []"
  by (simp add: mongo_slice_def)

lemma quotaGroupStage_props:
  "map quota_id (quotaGroupStage docs rand i ks) = ks \<and>
   (\<forall>g\<in>set (quotaGroupStage docs rand i ks).
      topOffers g = filter (\<lambda>d. sellerId d = quota_id g) docs)"
  by (induction ks arbitrary: i) auto

lemma filter_concat_groups:
  "(\<forall>g\<in>set gs. \<forall>d\<in>set (topOffers g). sellerId d = quota_id g) \<Longrightarrow>
   filter (\<lambda>d. sellerId d = sid) (concat (map topOffers gs))
     = concat (map topOffers (filter (\<lambda>g. quota_id g = sid) gs))"
proof (induction gs)
  case Nil
  then show ?case by simp
next
  case (Cons g gs)
  have "filter (\<lambda>d. sellerId d = sid) (topOffers g)
      = (if quota_id g = sid then topOffers g else [])"
    using Cons.prems by (auto simp: filter_empty_conv filter_id_conv)
  with Cons show ?case by simp
qed

lemma distinct_filter_key:
  "distinct (map f xs) \<Longrightarrow> length (filter (\<lambda>x. f x = a) xs) \<le> 1"
proof (induction xs)
  case Nil
  then show ?case by simp
next
  case (Cons x xs)
  show ?case
  proof (cases "f x = a")
    case True
    with Cons.prems have "a \<notin> f ` set xs" by auto
    then have "filter (\<lambda>x. f x = a) xs = []" by (auto simp: filter_empty_conv)
    with True show ?thesis by simp
  next
    case False
    with Cons show ?thesis by simp
  qed
qed

lemma quotaFlattened_per_seller:
  "filter (\<lambda>d. sellerId d = sid) (quotaFlattened rand m cat store)
     = mongo_slice (filter (\<lambda>d. sellerId d = sid) (sort_by quality_le (match cat store))) m"
proof -
  define docs where "docs = sort_by quality_le (match cat store)"
  define gs0 where "gs0 = map (limitPerSeller m) (quotaGroupStage docs rand 0 (groupKeys docs))"
  define gs where "gs = sort_by random_le gs0"
  have flat: "quotaFlattened rand m cat store = concat (map topOffers gs)"
    by (simp add: quotaFlattened_def Let_def docs_def gs0_def gs_def)
  note st = quotaGroupStage_props[of docs rand 0 "groupKeys docs"]
  have ids0: "map quota_id gs0 = groupKeys docs"
    using st by (simp add: gs0_def comp_def limitPerSeller_def)
  have top0: "\<forall>g\<in>set gs0. topOffers g = mongo_slice (filter (\<lambda>d. sellerId d = quota_id g) docs) m"
    using st by (auto simp: gs0_def limitPerSeller_def)
  have set_gs: "set gs = set gs0" by (simp add: gs_def set_sort_by)
  have "mset (map quota_id gs) = mset (map quota_id gs0)"
    by (simp add: gs_def mset_sort_by)
  then have ids: "mset (map quota_id gs) = mset (groupKeys docs)" by (simp add: ids0)
  then have dist: "distinct (map quota_id gs)"
    using distinct_groupKeys[of docs] by (metis mset_eq_imp_distinct_iff)
  have keyset: "quota_id ` set gs = sellerId ` set docs"
    using ids by (metis set_groupKeys set_map set_mset_mset)
  have own: "\<forall>g\<in>set gs. \<forall>d\<in>set (topOffers g). sellerId d = quota_id g"
  proof (intro ballI)
    fix g d assume g: "g \<in> set gs" and d: "d \<in> set (topOffers g)"
    from g top0 set_gs have "topOffers g = mongo_slice (filter (\<lambda>d. sellerId d = quota_id g) docs) m"
      by simp
    with d set_mongo_slice[of "filter (\<lambda>d. sellerId d = quota_id g) docs" m]
    show "sellerId d = quota_id g" by auto
  qed
  have sel: "filter (\<lambda>d. sellerId d = sid) (concat (map topOffers gs))
      = concat (map topOffers (filter (\<lambda>g. quota_id g = sid) gs))"
    using own by (rule filter_concat_groups)
  have le1: "length (filter (\<lambda>g. quota_id g = sid) gs) \<le> 1"
    using dist by (rule distinct_filter_key)
  show ?thesis
  proof (cases "filter (\<lambda>g. quota_id g = sid) gs")
    case Nil
    then have "sid \<notin> quota_id ` set gs" by (auto simp: filter_empty_conv)
    then have "filter (\<lambda>d. sellerId d = sid) docs = []"
      using keyset by (auto simp: filter_empty_conv)
    with Nil sel flat show ?thesis by (simp add: docs_def mongo_slice_Nil)
  next
    case (Cons g rest)
    with le1 have one: "filter (\<lambda>g. quota_id g = sid) gs = [g]" by simp
    then have "g \<in> set (filter (\<lambda>g. quota_id g = sid) gs)" by simp
    then have g: "g \<in> set gs" and k: "quota_id g = sid" by simp_all
    from g top0 set_gs k have "topOffers g = mongo_slice (filter (\<lambda>d. sellerId d = sid) docs) m"
      by auto
    with one sel flat show ?thesis by (simp add: docs_def)
  qed
qed

lemma quotaOf_cases:
  "quotaOf None = 2" "quotaOf (Some 0) = 2"
  "1 \<le> k \<Longrightarrow> quotaOf (Some k) = min k 10"
  "k < 0 \<Longrightarrow> quotaOf (Some k) = k"
  by (auto simp: quotaOf_def js_or_def defaultMaxOffersPerSeller_def maxMaxOffersPerSeller_def
      Let_def)


lemma sample_seller_1_top:
  "take 2 (filter (\<lambda>d. sellerId d = ''seller_1'') (sort_by quality_le (match ''RPG'' sampleOffers)))
     = [ mkOffer ''offer_5'' ''RPG'' ''seller_1'' 5 500,
         mkOffer ''offer_1'' ''RPG'' ''seller_1'' (9 / 2) 100 ]"
  unfolding sample_sorted by (simp add: mkOffer_def)


text \<open>
  C2, as amended. In the flattened sequence before \<open>$skip\<close> and \<open>$limit\<close>, the offers
  of a seller are the \<open>$slice\<close> of that seller's group, the group being sorted by rating
  descending, then createdAt descending, and the slice being taken with the effective
  quota (the argument, or the default 2 when it is absent or 0, capped at 10). For a
  \<open>maxPerSeller\<close> of at least 1 these are the first \<open>min(maxPerSeller, 10)\<close> offers of the
  group, hence at most \<open>maxPerSeller\<close>; for an absent or zero \<open>maxPerSeller\<close> at most 2.
\<close>

theorem quota_per_seller:
  "filter (\<lambda>d. sellerId d = sid) (quotaFlattened rand (quotaOf maxPerSeller) cat store)
     = mongo_slice (filter (\<lambda>d. sellerId d = sid) (sort_by quality_le (match cat store)))
         (quotaOf maxPerSeller)
   \<and> sorted_wrt (\<lambda>a b. rating b < rating a \<or> (rating a = rating b \<and> createdAt b \<le> createdAt a))
        (filter (\<lambda>d. sellerId d = sid) (sort_by quality_le (match cat store)))
   \<and> (\<forall>k. maxPerSeller = Some k \<and> 1 \<le> k \<longrightarrow>
         quotaOf maxPerSeller = min k 10
         \<and> filter (\<lambda>d. sellerId d = sid) (quotaFlattened rand (quotaOf maxPerSeller) cat store)
             = take (nat (min k 10))
                 (filter (\<lambda>d. sellerId d = sid) (sort_by quality_le (match cat store)))
         \<and> int (length (filter (\<lambda>d. sellerId d = sid)
                  (quotaFlattened rand (quotaOf maxPerSeller) cat store))) \<le> k)
   \<and> (maxPerSeller = None \<or> maxPerSeller = Some 0 \<longrightarrow>
         quotaOf maxPerSeller = 2
         \<and> length (filter (\<lambda>d. sellerId d = sid)
              (quotaFlattened rand (quotaOf maxPerSeller) cat store)) \<le> 2)"
proof -
  let ?grp = "filter (\<lambda>d. sellerId d = sid) (sort_by quality_le (match cat store))"
  let ?sel = "filter (\<lambda>d. sellerId d = sid) (quotaFlattened rand (quotaOf maxPerSeller) cat store)"
  have eq: "?sel = mongo_slice ?grp (quotaOf maxPerSeller)"
    by (rule quotaFlattened_per_seller)
  have "sorted_wrt quality_le (sort_by quality_le (match cat store))"
    by (rule sorted_sort_by[OF quality_le_total quality_le_trans])
  then have "sorted_wrt quality_le ?grp" by (rule sorted_wrt_filter)
  then have srt: "sorted_wrt (\<lambda>a b. rating b < rating a \<or> (rating a = rating b \<and> createdAt b \<le> createdAt a)) ?grp"
    by (simp add: quality_le_def[abs_def])
  have pos: "quotaOf maxPerSeller = min k 10 \<and> ?sel = take (nat (min k 10)) ?grp \<and> int (length ?sel) \<le> k"
    if "maxPerSeller = Some k \<and> 1 \<le> k" for k
  proof -
    from that have q: "quotaOf maxPerSeller = min k 10" by (simp add: quotaOf_cases)
    with eq that have t: "?sel = take (nat (min k 10)) ?grp" by (simp add: mongo_slice_def)
    have "length (take (nat (min k 10)) ?grp) \<le> nat (min k 10)" by simp
    with t that have "int (length ?sel) \<le> k" by (simp add: min_def split: if_splits)
    with q t show ?thesis by simp
  qed
  have dflt: "quotaOf maxPerSeller = 2 \<and> length ?sel \<le> 2"
    if "maxPerSeller = None \<or> maxPerSeller = Some 0"
  proof -
    from that have q: "quotaOf maxPerSeller = 2" by (auto simp: quotaOf_cases)
    with eq show ?thesis by (simp add: mongo_slice_def)
  qed
  from eq srt pos dflt show ?thesis by blast
qed

theorem quota_per_seller_witness:
  "quotaOf (Some 2) = 2
   \<and> filter (\<lambda>d. sellerId d = ''seller_1'')
        (quotaFlattened (\<lambda>i. 0) (quotaOf (Some 2)) ''RPG'' sampleOffers)
       = [ mkOffer ''offer_5'' ''RPG'' ''seller_1'' 5 500,
           mkOffer ''offer_1'' ''RPG'' ''seller_1'' (9 / 2) 100 ]
   \<and> quotaOf None = 2
   \<and> length (filter (\<lambda>d. sellerId d = ''seller_1'')
        (quotaFlattened (\<lambda>i. 0) (quotaOf None) ''RPG'' sampleOffers)) \<le> 2"
proof -
  note a = quota_per_seller[where sid = "''seller_1''" and rand = "\<lambda>i. 0"
      and maxPerSeller = "Some 2" and cat = "''RPG''" and store = sampleOffers]
  note b = quota_per_seller[where sid = "''seller_1''" and rand = "\<lambda>i. 0"
      and maxPerSeller = None and cat = "''RPG''" and store = sampleOffers]
  have h: "Some (2::int) = Some 2 \<and> (1::int) \<le> 2" by simp
  from a have "\<forall>k. Some (2::int) = Some k \<and> 1 \<le> k \<longrightarrow>
         quotaOf (Some 2) = min k 10
         \<and> filter (\<lambda>d. sellerId d = ''seller_1'')
              (quotaFlattened (\<lambda>i. 0) (quotaOf (Some 2)) ''RPG'' sampleOffers)
             = take (nat (min k 10))
                 (filter (\<lambda>d. sellerId d = ''seller_1'') (sort_by quality_le (match ''RPG'' sampleOffers)))
         \<and> int (length (filter (\<lambda>d. sellerId d = ''seller_1'')
                  (quotaFlattened (\<lambda>i. 0) (quotaOf (Some 2)) ''RPG'' sampleOffers))) \<le> k"
    by blast
  with h have q: "quotaOf (Some 2) = min 2 10"
    and f: "filter (\<lambda>d. sellerId d = ''seller_1'')
              (quotaFlattened (\<lambda>i. 0) (quotaOf (Some 2)) ''RPG'' sampleOffers)
             = take (nat (min 2 10))
                 (filter (\<lambda>d. sellerId d = ''seller_1'') (sort_by quality_le (match ''RPG'' sampleOffers)))"
    by blast+
  have n: "nat (min 2 10) = 2" by simp
  from b have d: "quotaOf None = 2
         \<and> length (filter (\<lambda>d. sellerId d = ''seller_1'')
              (quotaFlattened (\<lambda>i. 0) (quotaOf None) ''RPG'' sampleOffers)) \<le> 2"
    by blast
  from q f d show ?thesis unfolding n sample_seller_1_top by simp
qed

lemma quotaSample_sorted: "sort_by quality_le (match ''RPG'' quotaSample) = quotaSample"
  by (simp add: quotaSample_def mkOffer_def match_def sort_by_def quality_le_def)

text \<open>
  C2, as stated, fails for \<open>maxPerSeller = -1\<close>: the value is kept as the quota,
  \<open>$slice\<close> with \<open>-1\<close> keeps the last offer of the group, and the flattened sequence has
  one offer of seller_1 (the lower-rated one), which is more than \<open>-1\<close>. It also fails
  for \<open>maxPerSeller = 0\<close> read as the argument: the quota becomes the default 2 and both
  offers of seller_1 appear.
\<close>

theorem quota_negative_counterexample:
  "quotaOf (Some (- 1)) = - 1
   \<and> quotaFlattened (\<lambda>i. 0) (quotaOf (Some (- 1))) ''RPG'' quotaSample
       = [mkOffer ''offer_2'' ''RPG'' ''seller_1'' 3 200]
   \<and> \<not> int (length (filter (\<lambda>d. sellerId d = ''seller_1'')
            (quotaFlattened (\<lambda>i. 0) (quotaOf (Some (- 1))) ''RPG'' quotaSample))) \<le> - 1
   \<and> map_sum id r_maxPerSeller
        (getOffersQuotaBased quotaSample (\<lambda>i. 0) ''RPG'' 1 None (Some (- 1))) = Inr (Some (- 1))
   \<and> quotaOf (Some 0) = 2
   \<and> quotaFlattened (\<lambda>i. 0) (quotaOf (Some 0)) ''RPG'' quotaSample = quotaSample
   \<and> \<not> int (length (filter (\<lambda>d. sellerId d = ''seller_1'')
            (quotaFlattened (\<lambda>i. 0) (quotaOf (Some 0)) ''RPG'' quotaSample))) \<le> 0"
proof -
  have q: "quotaOf (Some (- 1)) = - 1" by (simp add: quotaOf_cases)
  have f: "quotaFlattened (\<lambda>i. 0) (- 1) ''RPG'' quotaSample
       = [mkOffer ''offer_2'' ''RPG'' ''seller_1'' 3 200]"
    unfolding quotaFlattened_def Let_def quotaSample_sorted
    by (simp add: quotaSample_def mkOffer_def limitPerSeller_def mongo_slice_def sort_by_def)
  have r: "map_sum id r_maxPerSeller
        (getOffersQuotaBased quotaSample (\<lambda>i. 0) ''RPG'' 1 None (Some (- 1))) = Inr (Some (- 1))"
    by (simp add: getOffersQuotaBased_def Let_def q js_or_def defaultPageSize_def)
  have q0: "quotaOf (Some 0) = 2" by (simp add: quotaOf_cases)
  have f0: "quotaFlattened (\<lambda>i. 0) 2 ''RPG'' quotaSample = quotaSample"
    unfolding quotaFlattened_def Let_def quotaSample_sorted
    by (simp add: quotaSample_def mkOffer_def limitPerSeller_def mongo_slice_def sort_by_def)
  have l0: "\<not> int (length (filter (\<lambda>d. sellerId d = ''seller_1'') quotaSample)) \<le> 0"
    by (simp add: quotaSample_def mkOffer_def)
  from q f r q0 f0 l0 show ?thesis by (simp add: mkOffer_def)
qed

section \<open>Weighted random distribution\<close>

lemma score_le_total: "score_le a b \<or> score_le b a"
  by (auto simp: score_le_def)

lemma score_le_trans: "score_le a b \<Longrightarrow> score_le b c \<Longrightarrow> score_le a c"
  by (auto simp: score_le_def)

lemma addScores_fields:
  "\<forall>d\<in>set (addScores store rand i ds).
      sellerOfferCount d
        = int (length (filter (\<lambda>e. sellerId e = sellerId d \<and> gameCategory e = gameCategory d) store))
      \<and> weightedScore d = randomScore d * 100 + 100 / (real_of_int (sellerOfferCount d) + 1)"
  by (induction ds arbitrary: i) (auto simp: sellerStatsCount_def)

lemma addScores_draws:
  "map randomScore (addScores store rand i ds) = map rand [i ..< i + length ds]"
proof (induction ds arbitrary: i)
  case Nil
  then show ?case by simp
next
  case (Cons d ds)
  have "i < i + length (d # ds)" by simp
  then have "[i ..< i + length (d # ds)] = i # [Suc i ..< i + length (d # ds)]"
    by (rule upt_conv_Cons)
  moreover have "i + length (d # ds) = Suc i + length ds" by simp
  ultimately have "[i ..< i + length (d # ds)] = i # [Suc i ..< Suc i + length ds]"
    by (simp only:)
  with Cons[of "Suc i"] show ?case by simp
qed

lemma dropScores_addScores: "map dropScores (addScores store rand i ds) = ds"
  by (induction ds arbitrary: i) (auto simp: dropScores_def)

lemma addScores_category:
  "\<forall>d\<in>set (addScores store rand i ds). \<exists>e\<in>set ds. gameCategory d = gameCategory e"
  by (induction ds arbitrary: i) auto


lemma weightedSample_ordered:
  "map (\<lambda>d. (offer_id d, sellerOfferCount d, weightedScore d))
     (weightedOrdered weightedSample (\<lambda>i. 1 / 2) ''RPG'')
   = [ (''offer_2'', 1, 100), (''offer_1'', 2, 250 / 3), (''offer_3'', 2, 250 / 3) ]"
  by (simp add: weightedOrdered_def weightedSample_def mkOffer_def match_def sellerStatsCount_def
      sort_by_def score_le_def)

lemma weightedSample_docs:
  "map dropScores (weightedOrdered weightedSample (\<lambda>i. 1 / 2) ''RPG'')
   = [ mkOffer ''offer_2'' ''RPG'' ''seller_2'' 3 200,
       mkOffer ''offer_1'' ''RPG'' ''seller_1'' 4 100,
       mkOffer ''offer_3'' ''RPG'' ''seller_1'' 5 300 ]"
  by (simp add: weightedOrdered_def weightedSample_def mkOffer_def match_def sellerStatsCount_def
      sort_by_def score_le_def dropScores_def)


text \<open>
  C6. For every candidate the weighted random method sets \<open>sellerOfferCount\<close> to the
  number of offers of the candidate's seller in the same category, takes the next random
  draw as \<open>randomScore\<close> (the draws are an input here: for the \<open>i\<close>-th candidate
  \<open>rand i\<close>), sets \<open>weightedScore = randomScore * 100 + 100 / (sellerOfferCount + 1)\<close>,
  orders the candidates by \<open>weightedScore\<close> descending, and returns the skip/limit slice of
  that order without the helper fields.
\<close>

theorem weightedRandom_scores:
  "(\<forall>d\<in>set (weightedOrdered store rand cat).
       gameCategory d = cat
       \<and> sellerOfferCount d
           = int (length (filter (\<lambda>e. sellerId e = sellerId d \<and> gameCategory e = cat) store))
       \<and> weightedScore d = randomScore d * 100 + 100 / (real_of_int (sellerOfferCount d) + 1))
   \<and> map randomScore (addScores store rand 0 (match cat store))
        = map rand [0 ..< length (match cat store)]
   \<and> mset (weightedOrdered store rand cat) = mset (addScores store rand 0 (match cat store))
   \<and> sorted_wrt (\<lambda>a b. weightedScore b \<le> weightedScore a) (weightedOrdered store rand cat)
   \<and> mset (map dropScores (weightedOrdered store rand cat)) = mset (match cat store)
   \<and> (1 \<le> pg \<and> 0 < js_or lm defaultPageSize \<longrightarrow>
        map_sum id r_offers (getOffersWeightedRandom store rand cat pg lm)
          = Inr (map dropScores (take (nat (js_or lm defaultPageSize))
               (drop (nat ((pg - 1) * js_or lm defaultPageSize)) (weightedOrdered store rand cat)))))"
proof -
  let ?scored = "addScores store rand 0 (match cat store)"
  have set_eq: "set (weightedOrdered store rand cat) = set ?scored"
    by (simp add: weightedOrdered_def set_sort_by)
  have cat: "gameCategory d = cat" if "d \<in> set ?scored" for d
    using addScores_category[of store rand 0 "match cat store"] that
    by (auto simp: match_def)
  have fields: "\<forall>d\<in>set (weightedOrdered store rand cat).
       gameCategory d = cat
       \<and> sellerOfferCount d
           = int (length (filter (\<lambda>e. sellerId e = sellerId d \<and> gameCategory e = cat) store))
       \<and> weightedScore d = randomScore d * 100 + 100 / (real_of_int (sellerOfferCount d) + 1)"
  proof
    fix d assume "d \<in> set (weightedOrdered store rand cat)"
    then have d: "d \<in> set ?scored" by (simp add: set_eq)
    with addScores_fields[of store rand 0 "match cat store"] cat[OF d]
    show "gameCategory d = cat
       \<and> sellerOfferCount d
           = int (length (filter (\<lambda>e. sellerId e = sellerId d \<and> gameCategory e = cat) store))
       \<and> weightedScore d = randomScore d * 100 + 100 / (real_of_int (sellerOfferCount d) + 1)"
      by auto
  qed
  have draws: "map randomScore ?scored = map rand [0 ..< length (match cat store)]"
    using addScores_draws[of store rand 0 "match cat store"] by simp
  have perm: "mset (weightedOrdered store rand cat) = mset ?scored"
    by (simp add: weightedOrdered_def mset_sort_by)
  have "sorted_wrt score_le (weightedOrdered store rand cat)"
    unfolding weightedOrdered_def by (rule sorted_sort_by[OF score_le_total score_le_trans])
  then have srt: "sorted_wrt (\<lambda>a b. weightedScore b \<le> weightedScore a) (weightedOrdered store rand cat)"
    by (simp add: score_le_def[abs_def])
  have "mset (map dropScores (weightedOrdered store rand cat)) = mset (map dropScores ?scored)"
    using perm by (metis mset_map)
  then have cand: "mset (map dropScores (weightedOrdered store rand cat)) = mset (match cat store)"
    by (simp add: dropScores_addScores)
  have page: "map_sum id r_offers (getOffersWeightedRandom store rand cat pg lm)
          = Inr (map dropScores (take (nat (js_or lm defaultPageSize))
               (drop (nat ((pg - 1) * js_or lm defaultPageSize)) (weightedOrdered store rand cat))))"
    if "1 \<le> pg \<and> 0 < js_or lm defaultPageSize"
  proof -
    from that have "0 \<le> (pg - 1) * js_or lm defaultPageSize"
      by (intro mult_nonneg_nonneg) simp_all
    then have "\<not> (pg - 1) * js_or lm defaultPageSize < 0" by linarith
    with that show ?thesis
      by (simp add: getOffersWeightedRandom_def Let_def skip_limit_def)
  qed
  from fields draws perm srt cand page show ?thesis by blast
qed

theorem weightedRandom_scores_witness:
  "map (\<lambda>d. (offer_id d, sellerOfferCount d, weightedScore d))
     (weightedOrdered weightedSample (\<lambda>i. 1 / 2) ''RPG'')
     = [ (''offer_2'', 1, 100), (''offer_1'', 2, 250 / 3), (''offer_3'', 2, 250 / 3) ]
   \<and> (1::int) \<le> 1 \<and> 0 < js_or (Some 2) defaultPageSize
   \<and> map_sum id r_offers
        (getOffersWeightedRandom weightedSample (\<lambda>i. 1 / 2) ''RPG'' 1 (Some 2))
       = Inr [ mkOffer ''offer_2'' ''RPG'' ''seller_2'' 3 200,
               mkOffer ''offer_1'' ''RPG'' ''seller_1'' 4 100 ]
   \<and> sorted_wrt (\<lambda>a b. weightedScore b \<le> weightedScore a)
        (weightedOrdered weightedSample (\<lambda>i. 1 / 2) ''RPG'')"
proof -
  note w = weightedRandom_scores[where store = weightedSample and rand = "\<lambda>i. 1 / 2"
      and cat = "''RPG''" and pg = 1 and lm = "Some 2"]
  have j: "js_or (Some 2) defaultPageSize = 2" by (simp add: js_or_def)
  have v: "(1::int) \<le> 1 \<and> 0 < js_or (Some 2) defaultPageSize" by (simp add: j)
  from w v have p: "map_sum id r_offers
        (getOffersWeightedRandom weightedSample (\<lambda>i. 1 / 2) ''RPG'' 1 (Some 2))
          = Inr (map dropScores (take (nat (js_or (Some 2) defaultPageSize))
               (drop (nat ((1 - 1) * js_or (Some 2) defaultPageSize))
                 (weightedOrdered weightedSample (\<lambda>i. 1 / 2) ''RPG''))))"
    by blast
  from w have s: "sorted_wrt (\<lambda>a b. weightedScore b \<le> weightedScore a)
        (weightedOrdered weightedSample (\<lambda>i. 1 / 2) ''RPG'')"
    by blast
  have "map dropScores (take 2 (weightedOrdered weightedSample (\<lambda>i. 1 / 2) ''RPG''))
      = take 2 (map dropScores (weightedOrdered weightedSample (\<lambda>i. 1 / 2) ''RPG''))"
    by (simp only: take_map)
  also have "\<dots> = [ mkOffer ''offer_2'' ''RPG'' ''seller_2'' 3 200,
               mkOffer ''offer_1'' ''RPG'' ''seller_1'' 4 100 ]"
    unfolding weightedSample_docs by simp
  finally have t: "map dropScores (take 2 (weightedOrdered weightedSample (\<lambda>i. 1 / 2) ''RPG''))
      = [ mkOffer ''offer_2'' ''RPG'' ''seller_2'' 3 200,
          mkOffer ''offer_1'' ''RPG'' ''seller_1'' 4 100 ]" .
  have "map_sum id r_offers
        (getOffersWeightedRandom weightedSample (\<lambda>i. 1 / 2) ''RPG'' 1 (Some 2))
       = Inr [ mkOffer ''offer_2'' ''RPG'' ''seller_2'' 3 200,
               mkOffer ''offer_1'' ''RPG'' ''seller_1'' 4 100 ]"
    using p t unfolding j by simp
  with weightedSample_ordered v s show ?thesis by blast
qed

section \<open>Pagination\<close>



















lemma negative_skip: "pg < 1 \<Longrightarrow> 0 < n \<Longrightarrow> (pg - 1) * n < (0::int)"
  by (simp add: mult_less_0_iff)

text \<open>
  C7, as amended. No method checks its numeric inputs before it queries the store. For
  a page below 1 (with a positive page size) the hash, weighted and quota-based methods
  send a negative \<open>$skip\<close> to the store and rethrow the store's error; the true
  round-robin returns a result whenever its aggregation succeeds, namely
  \<open>slice(skip, skip + limit)\<close> with a negative \<open>skip\<close>, which counts from the end of the
  interleaved sequence. A page size of 0 is replaced by the default 10 in all four
  methods.
\<close>

theorem negative_page_reaches_store:
  assumes "pg < 1" and "0 < n"
  shows "getOffersHashRoundRobin store now cat pg (Some n) rs = Inl (SkipNegative ((pg - 1) * n))
       \<and> getOffersWeightedRandom store rand cat pg (Some n) = Inl (SkipNegative ((pg - 1) * n))
       \<and> getOffersQuotaBased store rand cat pg (Some n) m = Inl (SkipNegative ((pg - 1) * n))
       \<and> (\<forall>gs. trueAggregate (seedFor rs now) cat store = Inr gs \<longrightarrow>
            (\<exists>res. getOffersTrueRoundRobin store now cat pg (Some n) rs = Inr res
               \<and> r_offers res = js_slice (roundRobin gs) ((pg - 1) * n) ((pg - 1) * n + n)
               \<and> p_page (r_pagination res) = pg
               \<and> \<not> p_hasPrevPage (r_pagination res)))
       \<and> getOffersHashRoundRobin store now cat pg' (Some 0) rs
            = getOffersHashRoundRobin store now cat pg' (Some 10) rs
       \<and> getOffersTrueRoundRobin store now cat pg' (Some 0) rs
            = getOffersTrueRoundRobin store now cat pg' (Some 10) rs
       \<and> getOffersWeightedRandom store rand cat pg' (Some 0)
            = getOffersWeightedRandom store rand cat pg' (Some 10)
       \<and> getOffersQuotaBased store rand cat pg' (Some 0) m
            = getOffersQuotaBased store rand cat pg' (Some 10) m"
proof -
  note neg = negative_skip[OF assms]
  have j: "js_or (Some n) defaultPageSize = n" using assms by (simp add: js_or_def)
  have z: "js_or (Some 0) defaultPageSize = js_or (Some 10) defaultPageSize"
    by (simp add: js_or_def defaultPageSize_def)
  have h: "getOffersHashRoundRobin store now cat pg (Some n) rs = Inl (SkipNegative ((pg - 1) * n))"
    using neg by (simp add: getOffersHashRoundRobin_def Let_def j)
  have w: "getOffersWeightedRandom store rand cat pg (Some n) = Inl (SkipNegative ((pg - 1) * n))"
    using neg by (simp add: getOffersWeightedRandom_def Let_def j)
  have q: "getOffersQuotaBased store rand cat pg (Some n) m = Inl (SkipNegative ((pg - 1) * n))"
    using neg by (simp add: getOffersQuotaBased_def Let_def j)
  have t: "\<exists>res. getOffersTrueRoundRobin store now cat pg (Some n) rs = Inr res
               \<and> r_offers res = js_slice (roundRobin gs) ((pg - 1) * n) ((pg - 1) * n + n)
               \<and> p_page (r_pagination res) = pg
               \<and> \<not> p_hasPrevPage (r_pagination res)"
    if "trueAggregate (seedFor rs now) cat store = Inr gs" for gs
    using that assms by (simp add: getOffersTrueRoundRobin_def Let_def j paginationOf_def)
  have z1: "getOffersHashRoundRobin store now cat pg' (Some 0) rs
            = getOffersHashRoundRobin store now cat pg' (Some 10) rs"
    by (simp only: getOffersHashRoundRobin_def z)
  have z2: "getOffersTrueRoundRobin store now cat pg' (Some 0) rs
            = getOffersTrueRoundRobin store now cat pg' (Some 10) rs"
    by (simp only: getOffersTrueRoundRobin_def z)
  have z3: "getOffersWeightedRandom store rand cat pg' (Some 0)
            = getOffersWeightedRandom store rand cat pg' (Some 10)"
    by (simp only: getOffersWeightedRandom_def z)
  have z4: "getOffersQuotaBased store rand cat pg' (Some 0) m
            = getOffersQuotaBased store rand cat pg' (Some 10) m"
    by (simp only: getOffersQuotaBased_def z)
  from h w q t z1 z2 z3 z4 show ?thesis by blast
qed

theorem negative_page_reaches_store_witness:
  "(- 1 :: int) < 1 \<and> (0::int) < 3
   \<and> getOffersHashRoundRobin sampleOffers 0 ''RPG'' (- 1) (Some 3) (Some 998)
       = Inl (SkipNegative (- 6))
   \<and> getOffersWeightedRandom sampleOffers (\<lambda>i. 0) ''RPG'' (- 1) (Some 3) = Inl (SkipNegative (- 6))
   \<and> getOffersQuotaBased sampleOffers (\<lambda>i. 0) ''RPG'' (- 1) (Some 3) None = Inl (SkipNegative (- 6))
   \<and> trueAggregate (seedFor (Some 998) 0) ''RPG'' sampleOffers = Inr sampleGroups
   \<and> (\<exists>res. getOffersTrueRoundRobin sampleOffers 0 ''RPG'' (- 1) (Some 3) (Some 998) = Inr res
          \<and> r_offers res = js_slice sampleInterleaved (- 6) (- 3))"
proof -
  have a: "(- 1 :: int) < 1" and b: "(0::int) < 3" by simp_all
  note n = negative_page_reaches_store[OF a b, where store = sampleOffers and now = 0
      and cat = "''RPG''" and rs = "Some 998" and rand = "\<lambda>i. 0" and m = None]
  have g: "trueAggregate (seedFor (Some 998) 0) ''RPG'' sampleOffers = Inr sampleGroups"
    by (simp add: seedFor_def js_or_def sample_groups)
  have e: "(- 1 - 1) * 3 = (- 6 :: int)" "(- 1 - 1) * 3 + 3 = (- 3 :: int)" by simp_all
  from n g have "\<exists>res. getOffersTrueRoundRobin sampleOffers 0 ''RPG'' (- 1) (Some 3) (Some 998) = Inr res
          \<and> r_offers res = js_slice (roundRobin sampleGroups) ((- 1 - 1) * 3) ((- 1 - 1) * 3 + 3)"
    by blast
  then have t: "\<exists>res. getOffersTrueRoundRobin sampleOffers 0 ''RPG'' (- 1) (Some 3) (Some 998) = Inr res
          \<and> r_offers res = js_slice sampleInterleaved (- 6) (- 3)"
    by (simp add: sample_roundRobin)
  from n have "getOffersHashRoundRobin sampleOffers 0 ''RPG'' (- 1) (Some 3) (Some 998)
       = Inl (SkipNegative ((- 1 - 1) * 3))"
    and "getOffersWeightedRandom sampleOffers (\<lambda>i. 0) ''RPG'' (- 1) (Some 3)
       = Inl (SkipNegative ((- 1 - 1) * 3))"
    and "getOffersQuotaBased sampleOffers (\<lambda>i. 0) ''RPG'' (- 1) (Some 3) None
       = Inl (SkipNegative ((- 1 - 1) * 3))"
    by blast+
  then have "getOffersHashRoundRobin sampleOffers 0 ''RPG'' (- 1) (Some 3) (Some 998)
       = Inl (SkipNegative (- 6))"
    and "getOffersWeightedRandom sampleOffers (\<lambda>i. 0) ''RPG'' (- 1) (Some 3)
       = Inl (SkipNegative (- 6))"
    and "getOffersQuotaBased sampleOffers (\<lambda>i. 0) ''RPG'' (- 1) (Some 3) None
       = Inl (SkipNegative (- 6))"
    by simp_all
  with a b g t show ?thesis by blast
qed

text \<open>
  C7, as stated, fails for the true round-robin on page \<open>-1\<close> with page size 3: the call
  is not rejected, it returns the fourth to sixth offer of the nine interleaved ones.
\<close>

theorem negative_page_counterexample:
  "getOffersTrueRoundRobin sampleOffers 0 ''RPG'' (- 1) (Some 3) (Some 998) = Inr
     \<lparr> r_offers = [ mkOffer ''offer_8'' ''RPG'' ''seller_2'' (3 / 2) 800,
                   mkOffer ''offer_4'' ''RPG'' ''seller_3'' (7 / 2) 400,
                   mkOffer ''offer_1'' ''RPG'' ''seller_1'' (9 / 2) 100 ],
       r_pagination = \<lparr> p_page = - 1, p_limit = 3, p_total = 9, p_totalPages = 3,
                        p_hasNextPage = True, p_hasPrevPage = False \<rparr>,
       r_seed = Some 998, r_maxPerSeller = None,
       r_method = ''True Round-Robin (JavaScript)'' \<rparr>"
  unfolding getOffersTrueRoundRobin_def Let_def
  by (simp add: seedFor_def js_or_def sample_groups sample_roundRobin sample_count js_slice_def
      paginationOf_def js_ceil_div_def sampleInterleaved_def)

end
